theory Spec2Isabelle
  imports Main
begin

section \<open>Python strings\<close>

text \<open>
  The query executor of \<^verbatim>\<open>app/database/query_executor.py\<close> works on Python \<^verbatim>\<open>str\<close>
  values. A Python string is modelled as a \<^typ>\<open>string\<close> with one \<^typ>\<open>char\<close> per code
  point, so the model covers text whose code points lie below 256. The character
  classes below are the ones Python uses on that range.
\<close>

datatype error = ValueError string | IndexError

definition NL :: char where
  "NL = CHR 0x0A"

definition SQUOTE :: char where
  "SQUOTE = CHR 0x27"

definition DQUOTE :: char where
  "DQUOTE = CHR 0x22"

text \<open>\<^verbatim>\<open>str.isspace\<close>, which is also the class \<^verbatim>\<open>\s\<close> of \<^verbatim>\<open>re\<close> and what
  \<^verbatim>\<open>str.strip()\<close> removes: code points 9-13, 28-32, 133 and 160.\<close>

definition isspace :: "char \<Rightarrow> bool" where
  "isspace c = (let n = (of_char c :: nat) in
     (9 \<le> n \<and> n \<le> 13) \<or> (28 \<le> n \<and> n \<le> 32) \<or> n = 133 \<or> n = 160)"

text \<open>\<^verbatim>\<open>str.isalnum\<close> on one character: the ASCII letters and digits, and above 127 the
  code points 170, 178, 179, 181, 185, 186, 188-190, 192-214, 216-246, 248-255.\<close>

definition isalnum :: "char \<Rightarrow> bool" where
  "isalnum c = (let n = (of_char c :: nat) in
     (48 \<le> n \<and> n \<le> 57) \<or> (65 \<le> n \<and> n \<le> 90) \<or> (97 \<le> n \<and> n \<le> 122) \<or>
     n = 170 \<or> n = 178 \<or> n = 179 \<or> n = 181 \<or> n = 185 \<or> n = 186 \<or>
     (188 \<le> n \<and> n \<le> 190) \<or> (192 \<le> n \<and> n \<le> 214) \<or> (216 \<le> n \<and> n \<le> 246) \<or>
     (248 \<le> n \<and> n \<le> 255))"

text \<open>The class \<^verbatim>\<open>\w\<close> of \<^verbatim>\<open>re\<close>: alphanumeric or underscore.\<close>

definition isword :: "char \<Rightarrow> bool" where
  "isword c = (isalnum c \<or> c = CHR ''_'')"

text \<open>
  \<^verbatim>\<open>str.upper\<close> on the ASCII letters. Above 127 Python's upper-casing yields letters
  outside ASCII (or \<^verbatim>\<open>SS\<close> for code point 223), so a comparison of the result with an
  ASCII keyword that has no \<^verbatim>\<open>S\<close> (\<^verbatim>\<open>BEGIN\<close>, \<^verbatim>\<open>END\<close>, \<^verbatim>\<open>CREATE\<close>) comes out the same
  when those characters are left as they are.
\<close>

definition upper_char :: "char \<Rightarrow> char" where
  "upper_char c = (let n = (of_char c :: nat) in
     if 97 \<le> n \<and> n \<le> 122 then char_of (n - 32) else c)"

definition upper :: "string \<Rightarrow> string" where
  "upper s = map upper_char s"

definition lstrip :: "string \<Rightarrow> string" where
  "lstrip s = dropWhile isspace s"

definition rstrip :: "string \<Rightarrow> string" where
  "rstrip s = rev (dropWhile isspace (rev s))"

definition strip :: "string \<Rightarrow> string" where
  "strip s = rstrip (lstrip s)"

definition startswith :: "string \<Rightarrow> string \<Rightarrow> bool" where
  "startswith s pre = (take (length pre) s = pre)"

text \<open>\<^verbatim>\<open>s.split(sep)\<close> for a one-character separator: one more piece than separators.\<close>

fun split_on :: "char \<Rightarrow> string \<Rightarrow> string list" where
  "split_on sep [] = [[]]"
| "split_on sep (x # xs) =
     (if x = sep then [] # split_on sep xs
      else (case split_on sep xs of
              [] \<Rightarrow> [[x]]
            | piece # pieces \<Rightarrow> (x # piece) # pieces))"

text \<open>\<^verbatim>\<open>sep.join(pieces)\<close>.\<close>

fun join :: "string \<Rightarrow> string list \<Rightarrow> string" where
  "join sep [] = []"
| "join sep [p] = p"
| "join sep (p # q # ps) = p @ sep @ join sep (q # ps)"

text \<open>\<^verbatim>\<open>s.find(sub)\<close>: the first index at which \<^verbatim>\<open>sub\<close> starts, \<^verbatim>\<open>None\<close> for Python's -1.\<close>

fun find_sub :: "string \<Rightarrow> string \<Rightarrow> nat option" where
  "find_sub [] sub = (if sub = [] then Some 0 else None)"
| "find_sub (x # xs) sub =
     (if startswith (x # xs) sub then Some 0
      else map_option Suc (find_sub xs sub))"

text \<open>\<^verbatim>\<open>s[i]\<close> for an index that is not negative: out of range raises.\<close>

definition py_index :: "string \<Rightarrow> nat \<Rightarrow> error + char" where
  "py_index s i = (if i < length s then Inr (s ! i) else Inl IndexError)"

text \<open>\<^verbatim>\<open>s[i:i+n]\<close>: a slice never raises.\<close>

definition slice_from :: "string \<Rightarrow> nat \<Rightarrow> nat \<Rightarrow> string" where
  "slice_from s i n = take n (drop i s)"

section \<open>The regular expressions of the splitter\<close>

text \<open>
  The patterns used by \<^verbatim>\<open>_split_sql_statements\<close> are sequences of literal text,
  alternatives of keywords, repeated character classes and zero-width assertions.
  All of them that contain letters are compiled with \<^verbatim>\<open>re.IGNORECASE\<close>, every \<^verbatim>\<open>.\<close>
  occurs under \<^verbatim>\<open>re.DOTALL\<close>, and \<^verbatim>\<open>^\<close> and \<^verbatim>\<open>$\<close> occur only under \<^verbatim>\<open>re.MULTILINE\<close>.
\<close>

datatype cclass = Space | Word | AnyChar | NotChar char

datatype rx =
    Lit string
  | Alt "string list"
  | Star cclass
  | Plus cclass
  | Lazy cclass
  | WordB
  | Bol
  | Eol

fun in_class :: "cclass \<Rightarrow> char \<Rightarrow> bool" where
  "in_class Space c = isspace c"
| "in_class Word c = isword c"
| "in_class AnyChar c = True"
| "in_class (NotChar d) c = (c \<noteq> d)"

definition ci_eq :: "char \<Rightarrow> char \<Rightarrow> bool" where
  "ci_eq x c = (upper_char x = upper_char c)"

definition word_opt :: "char option \<Rightarrow> bool" where
  "word_opt p = (case p of None \<Rightarrow> False | Some c \<Rightarrow> isword c)"

definition next_char :: "string \<Rightarrow> char option" where
  "next_char s = (case s of [] \<Rightarrow> None | x # _ \<Rightarrow> Some x)"

fun rsize :: "rx \<Rightarrow> nat" where
  "rsize (Lit w) = Suc (length w)"
| "rsize (Alt ws) = Suc (sum_list (map (\<lambda>w. length w + 2) ws))"
| "rsize (Plus k) = 2"
| "rsize r = 1"

text \<open>
  The backtracking matcher: \<open>rmatch r p s\<close> matches the pattern \<open>r\<close> at a position
  whose preceding character is \<open>p\<close> (\<open>None\<close> at the start of the text) and whose
  remaining text is \<open>s\<close>. It returns the first match in the order in which \<^verbatim>\<open>re\<close>
  explores them (alternatives left to right, a greedy repetition longest first, a lazy
  one shortest first), as the character before the end of the match and the text after it.
\<close>

function rmatch :: "rx list \<Rightarrow> char option \<Rightarrow> string \<Rightarrow> (char option \<times> string) option" where
  "rmatch [] p s = Some (p, s)"
| "rmatch (Lit [] # r) p s = rmatch r p s"
| "rmatch (Lit (c # cs) # r) p s =
     (case s of
        [] \<Rightarrow> None
      | x # xs \<Rightarrow> if ci_eq x c then rmatch (Lit cs # r) (Some x) xs else None)"
| "rmatch (Alt [] # r) p s = None"
| "rmatch (Alt (w # ws) # r) p s =
     (case rmatch (Lit w # r) p s of
        Some m \<Rightarrow> Some m
      | None \<Rightarrow> rmatch (Alt ws # r) p s)"
| "rmatch (Star k # r) p s =
     (case s of
        [] \<Rightarrow> rmatch r p s
      | x # xs \<Rightarrow>
          if in_class k x
          then (case rmatch (Star k # r) (Some x) xs of
                  Some m \<Rightarrow> Some m
                | None \<Rightarrow> rmatch r p s)
          else rmatch r p s)"
| "rmatch (Plus k # r) p s =
     (case s of
        [] \<Rightarrow> None
      | x # xs \<Rightarrow> if in_class k x then rmatch (Star k # r) (Some x) xs else None)"
| "rmatch (Lazy k # r) p s =
     (case rmatch r p s of
        Some m \<Rightarrow> Some m
      | None \<Rightarrow>
          (case s of
             [] \<Rightarrow> None
           | x # xs \<Rightarrow> if in_class k x then rmatch (Lazy k # r) (Some x) xs else None))"
| "rmatch (WordB # r) p s =
     (if word_opt p \<noteq> word_opt (next_char s) then rmatch r p s else None)"
| "rmatch (Bol # r) p s =
     (if p = None \<or> p = Some NL then rmatch r p s else None)"
| "rmatch (Eol # r) p s =
     (if s = [] \<or> next_char s = Some NL then rmatch r p s else None)"
  by pat_completeness auto
termination
  by (relation "measures [\<lambda>(r, p, s). sum_list (map rsize r), \<lambda>(r, p, s). length s]") auto

declare rmatch.simps [simp del]

text \<open>
  \<^verbatim>\<open>re.search\<close>: the match at the leftmost position that has one. The result is the text
  before the match, the matched text, the character before the end of the match and the
  text after it.
\<close>

fun rsearch_from :: "rx list \<Rightarrow> string \<Rightarrow> char option \<Rightarrow> string
    \<Rightarrow> (string \<times> string \<times> char option \<times> string) option" where
  "rsearch_from r skipped p s =
     (case rmatch r p s of
        Some (p', rest) \<Rightarrow> Some (rev skipped, take (length s - length rest) s, p', rest)
      | None \<Rightarrow>
          (case s of
             [] \<Rightarrow> None
           | x # xs \<Rightarrow> rsearch_from r (x # skipped) (Some x) xs))"

declare rsearch_from.simps [simp del]

definition rsearch :: "rx list \<Rightarrow> string \<Rightarrow> (string \<times> string \<times> char option \<times> string) option" where
  "rsearch r s = rsearch_from r [] None s"

definition re_search :: "rx list \<Rightarrow> string \<Rightarrow> bool" where
  "re_search r s = (rsearch r s \<noteq> None)"

text \<open>A match never ends before the position at which it was started.\<close>

lemma rmatch_length_le:
  "rmatch r p s = Some (p', rest) \<Longrightarrow> length rest \<le> length s"
proof (induction r p s arbitrary: p' rest rule: rmatch.induct)
  case (1 p s)
  then show ?case by (simp add: rmatch.simps(1))
next
  case (2 r p s)
  then show ?case by (simp add: rmatch.simps(2))
next
  case (3 c cs r p s)
  from "3.prems" obtain x xs where s: "s = x # xs" and c: "ci_eq x c"
    and m: "rmatch (Lit cs # r) (Some x) xs = Some (p', rest)"
    by (subst (asm) rmatch.simps(3)) (auto split: list.splits if_splits)
  from "3.IH" [OF s c m] s show ?case by simp
next
  case (4 r p s)
  then show ?case by (simp add: rmatch.simps(4))
next
  case (5 w ws r p s)
  from "5.prems" have u: "(case rmatch (Lit w # r) p s of Some m \<Rightarrow> Some m
      | None \<Rightarrow> rmatch (Alt ws # r) p s) = Some (p', rest)"
    by (subst (asm) rmatch.simps(5))
  show ?case
  proof (cases "rmatch (Lit w # r) p s")
    case None
    with u have "rmatch (Alt ws # r) p s = Some (p', rest)" by simp
    from "5.IH"(2) [OF None this] show ?thesis .
  next
    case (Some m)
    with u have "rmatch (Lit w # r) p s = Some (p', rest)" by simp
    from "5.IH"(1) [OF this] show ?thesis .
  qed
next
  case (6 k r p s)
  from "6.prems" have u: "(case s of [] \<Rightarrow> rmatch r p s
      | x # xs \<Rightarrow> if in_class k x
          then (case rmatch (Star k # r) (Some x) xs of Some m \<Rightarrow> Some m
                | None \<Rightarrow> rmatch r p s)
          else rmatch r p s) = Some (p', rest)"
    by (subst (asm) rmatch.simps(6))
  show ?case
  proof (cases s)
    case Nil
    with u have "rmatch r p s = Some (p', rest)" by simp
    from "6.IH"(1) [OF Nil this] show ?thesis .
  next
    case (Cons x xs)
    show ?thesis
    proof (cases "in_class k x")
      case False
      with Cons u have "rmatch r p s = Some (p', rest)" by simp
      from "6.IH"(4) [OF Cons False this] show ?thesis .
    next
      case True
      show ?thesis
      proof (cases "rmatch (Star k # r) (Some x) xs")
        case None
        with Cons True u have "rmatch r p s = Some (p', rest)" by simp
        from "6.IH"(3) [OF Cons True None this] show ?thesis .
      next
        case (Some m)
        with Cons True u have "rmatch (Star k # r) (Some x) xs = Some (p', rest)" by simp
        from "6.IH"(2) [OF Cons True this] Cons show ?thesis by simp
      qed
    qed
  qed
next
  case (7 k r p s)
  from "7.prems" obtain x xs where s: "s = x # xs" and c: "in_class k x"
    and m: "rmatch (Star k # r) (Some x) xs = Some (p', rest)"
    by (subst (asm) rmatch.simps(7)) (auto split: list.splits if_splits)
  from "7.IH" [OF s c m] s show ?case by simp
next
  case (8 k r p s)
  from "8.prems" have u: "(case rmatch r p s of Some m \<Rightarrow> Some m
      | None \<Rightarrow> (case s of [] \<Rightarrow> None
          | x # xs \<Rightarrow> if in_class k x then rmatch (Lazy k # r) (Some x) xs else None))
      = Some (p', rest)"
    by (subst (asm) rmatch.simps(8))
  show ?case
  proof (cases "rmatch r p s")
    case (Some m)
    with u have "rmatch r p s = Some (p', rest)" by simp
    from "8.IH"(1) [OF this] show ?thesis .
  next
    case None
    with u obtain x xs where s: "s = x # xs" and c: "in_class k x"
      and m: "rmatch (Lazy k # r) (Some x) xs = Some (p', rest)"
      by (auto split: list.splits if_splits)
    from "8.IH"(2) [OF None s c m] s show ?thesis by simp
  qed
next
  case (9 r p s)
  then show ?case by (simp add: rmatch.simps(9) split: if_splits)
next
  case (10 r p s)
  then show ?case by (simp add: rmatch.simps(10) split: if_splits)
next
  case (11 r p s)
  then show ?case by (simp add: rmatch.simps(11) split: if_splits)
qed

text \<open>Patterns whose every match is non-empty: some literal character or a \<^verbatim>\<open>+\<close>
  repetition has to be consumed.\<close>

fun must_consume :: "rx list \<Rightarrow> bool" where
  "must_consume [] = False"
| "must_consume (Lit (c # cs) # r) = True"
| "must_consume (Plus k # r) = True"
| "must_consume (x # r) = must_consume r"

lemma rmatch_length_less:
  "must_consume r \<Longrightarrow> rmatch r p s = Some (p', rest) \<Longrightarrow> length rest < length s"
proof (induction r p s arbitrary: p' rest rule: rmatch.induct)
  case (1 p s)
  then show ?case by simp
next
  case (2 r p s)
  then show ?case by (simp add: rmatch.simps(2))
next
  case (3 c cs r p s)
  from "3.prems"(2) obtain x xs where s: "s = x # xs"
    and m: "rmatch (Lit cs # r) (Some x) xs = Some (p', rest)"
    by (subst (asm) rmatch.simps(3)) (auto split: list.splits if_splits)
  from rmatch_length_le [OF m] s show ?case by simp
next
  case (4 r p s)
  then show ?case by (simp add: rmatch.simps(4))
next
  case (5 w ws r p s)
  from "5.prems"(1) have mc: "must_consume r" by simp
  from "5.prems"(2) have u: "(case rmatch (Lit w # r) p s of Some m \<Rightarrow> Some m
      | None \<Rightarrow> rmatch (Alt ws # r) p s) = Some (p', rest)"
    by (subst (asm) rmatch.simps(5))
  show ?case
  proof (cases "rmatch (Lit w # r) p s")
    case None
    with u have m: "rmatch (Alt ws # r) p s = Some (p', rest)" by simp
    from mc have "must_consume (Alt ws # r)" by simp
    from "5.IH"(2) [OF None this m] show ?thesis .
  next
    case (Some m')
    with u have m: "rmatch (Lit w # r) p s = Some (p', rest)" by simp
    from mc have "must_consume (Lit w # r)" by (cases w) simp_all
    from "5.IH"(1) [OF this m] show ?thesis .
  qed
next
  case (6 k r p s)
  from "6.prems"(1) have mc: "must_consume r" by simp
  from "6.prems"(2) have u: "(case s of [] \<Rightarrow> rmatch r p s
      | x # xs \<Rightarrow> if in_class k x
          then (case rmatch (Star k # r) (Some x) xs of Some m \<Rightarrow> Some m
                | None \<Rightarrow> rmatch r p s)
          else rmatch r p s) = Some (p', rest)"
    by (subst (asm) rmatch.simps(6))
  show ?case
  proof (cases s)
    case Nil
    with u have "rmatch r p s = Some (p', rest)" by simp
    from "6.IH"(1) [OF Nil mc this] show ?thesis .
  next
    case (Cons x xs)
    show ?thesis
    proof (cases "in_class k x")
      case False
      with Cons u have "rmatch r p s = Some (p', rest)" by simp
      from "6.IH"(4) [OF Cons False mc this] show ?thesis .
    next
      case True
      show ?thesis
      proof (cases "rmatch (Star k # r) (Some x) xs")
        case None
        with Cons True u have "rmatch r p s = Some (p', rest)" by simp
        from "6.IH"(3) [OF Cons True None mc this] show ?thesis .
      next
        case (Some m')
        with Cons True u have "rmatch (Star k # r) (Some x) xs = Some (p', rest)" by simp
        from rmatch_length_le [OF this] Cons show ?thesis by simp
      qed
    qed
  qed
next
  case (7 k r p s)
  from "7.prems"(2) obtain x xs where s: "s = x # xs"
    and m: "rmatch (Star k # r) (Some x) xs = Some (p', rest)"
    by (subst (asm) rmatch.simps(7)) (auto split: list.splits if_splits)
  from rmatch_length_le [OF m] s show ?case by simp
next
  case (8 k r p s)
  from "8.prems"(1) have mc: "must_consume r" by simp
  from "8.prems"(2) have u: "(case rmatch r p s of Some m \<Rightarrow> Some m
      | None \<Rightarrow> (case s of [] \<Rightarrow> None
          | x # xs \<Rightarrow> if in_class k x then rmatch (Lazy k # r) (Some x) xs else None))
      = Some (p', rest)"
    by (subst (asm) rmatch.simps(8))
  show ?case
  proof (cases "rmatch r p s")
    case (Some m')
    with u have "rmatch r p s = Some (p', rest)" by simp
    from "8.IH"(1) [OF mc this] show ?thesis .
  next
    case None
    with u obtain x xs where s: "s = x # xs"
      and m: "rmatch (Lazy k # r) (Some x) xs = Some (p', rest)"
      by (auto split: list.splits if_splits)
    from rmatch_length_le [OF m] s show ?thesis by simp
  qed
next
  case (9 r p s)
  then show ?case by (simp add: rmatch.simps(9) split: if_splits)
next
  case (10 r p s)
  then show ?case by (simp add: rmatch.simps(10) split: if_splits)
next
  case (11 r p s)
  then show ?case by (simp add: rmatch.simps(11) split: if_splits)
qed

lemma rsearch_from_length_less:
  "must_consume r \<Longrightarrow> rsearch_from r skipped p s = Some (before, matched, p', rest)
   \<Longrightarrow> length rest < length s"
proof (induction r skipped p s rule: rsearch_from.induct)
  case (1 r skipped p s)
  from "1.prems"(2) have u: "(case rmatch r p s of
        Some (p', rest) \<Rightarrow> Some (rev skipped, take (length s - length rest) s, p', rest)
      | None \<Rightarrow> (case s of [] \<Rightarrow> None
           | x # xs \<Rightarrow> rsearch_from r (x # skipped) (Some x) xs))
      = Some (before, matched, p', rest)"
    by (subst (asm) rsearch_from.simps)
  show ?case
  proof (cases "rmatch r p s")
    case (Some m)
    obtain q t where m: "m = (q, t)" by (cases m)
    from u Some m have "t = rest" by simp
    with Some m "1.prems"(1) show ?thesis
      by (auto dest: rmatch_length_less)
  next
    case None
    with u obtain x xs where s: "s = x # xs"
      and m: "rsearch_from r (x # skipped) (Some x) xs = Some (before, matched, p', rest)"
      by (auto split: list.splits)
    from "1.IH" [OF None s "1.prems"(1) m] s show ?thesis by simp
  qed
qed

section \<open>The statement splitter\<close>

subsection \<open>Batch separators\<close>

text \<open>\<^verbatim>\<open>r'^\s*GO\s*$'\<close> with \<^verbatim>\<open>re.MULTILINE | re.IGNORECASE\<close>.\<close>

definition go_pattern :: "rx list" where
  "go_pattern = [Bol, Star Space, Lit ''GO'', Star Space, Eol]"

text \<open>
  \<^verbatim>\<open>re.split\<close> with the batch separator pattern, continued at a position whose
  preceding character is \<open>p\<close>. A match of the pattern contains \<^verbatim>\<open>GO\<close>, so the rule of
  \<^verbatim>\<open>re.split\<close> for empty matches never applies, and each round continues in a
  shorter text.
\<close>

function re_split_go :: "char option \<Rightarrow> string \<Rightarrow> string list" where
  "re_split_go p s =
     (case rsearch_from go_pattern [] p s of
        None \<Rightarrow> [s]
      | Some (before, matched, p', rest) \<Rightarrow> before # re_split_go p' rest)"
  by pat_completeness auto
termination
  by (relation "measure (\<lambda>(p, s). length s)")
     (auto dest!: rsearch_from_length_less [rotated] simp: go_pattern_def)

declare re_split_go.simps [simp del]

subsection \<open>A guarded drop followed by a create\<close>

text \<open>\<^verbatim>\<open>r'(IF\s+OBJECT_ID\s*\([^)]+\)\s+IS\s+NOT\s+NULL\s+DROP\s+PROCEDURE\s+[^;]+;)'\<close>\<close>

definition if_drop_pattern :: "rx list" where
  "if_drop_pattern =
     [Lit ''IF'', Plus Space, Lit ''OBJECT_ID'', Star Space, Lit ''('',
      Plus (NotChar CHR '')''), Lit '')'', Plus Space, Lit ''IS'', Plus Space,
      Lit ''NOT'', Plus Space, Lit ''NULL'', Plus Space, Lit ''DROP'', Plus Space,
      Lit ''PROCEDURE'', Plus Space, Plus (NotChar CHR '';''), Lit '';'']"

text \<open>\<^verbatim>\<open>r'(CREATE\s+PROCEDURE\s+.*)'\<close>\<close>

definition create_pattern :: "rx list" where
  "create_pattern = [Lit ''CREATE'', Plus Space, Lit ''PROCEDURE'', Plus Space, Star AnyChar]"

text \<open>The loop over \<^verbatim>\<open>create_lines\<close>: comment lines before the \<^verbatim>\<open>CREATE\<close> line are
  skipped, the first comment line after it ends the loop.\<close>

fun clean_create_lines :: "string list \<Rightarrow> bool \<Rightarrow> string list \<Rightarrow> string list" where
  "clean_create_lines [] found_create cleaned_create_lines = cleaned_create_lines"
| "clean_create_lines (line # create_lines) found_create cleaned_create_lines =
     (let line_stripped = strip line in
      if startswith line_stripped ''--''
      then (if found_create then cleaned_create_lines
            else clean_create_lines create_lines found_create cleaned_create_lines)
      else
        (let found_create' = (found_create \<or> startswith (upper line_stripped) ''CREATE'') in
         clean_create_lines create_lines found_create'
           (if found_create' \<or> line_stripped \<noteq> []
            then cleaned_create_lines @ [line] else cleaned_create_lines)))"

definition drop_create_split :: "string \<Rightarrow> string list option" where
  "drop_create_split query =
     (case rsearch if_drop_pattern query of
        None \<Rightarrow> None
      | Some (before, matched, p', rest) \<Rightarrow>
          if re_search create_pattern query
          then
            (let drop_part = strip matched;
                 create_part = strip rest;
                 cleaned_create_lines = clean_create_lines (split_on NL create_part) False []
             in if cleaned_create_lines \<noteq> []
                then Some [drop_part, strip (join [NL] cleaned_create_lines)]
                else None)
          else None)"

subsection \<open>Comments\<close>

definition remove_line_comment :: "string \<Rightarrow> string" where
  "remove_line_comment line =
     (case find_sub line ''--'' of
        None \<Rightarrow> line
      | Some comment_pos \<Rightarrow> rstrip (take comment_pos line))"

text \<open>\<^verbatim>\<open>r'/\*.*?\*/'\<close> with \<^verbatim>\<open>re.DOTALL\<close>.\<close>

definition block_comment_pattern :: "rx list" where
  "block_comment_pattern = [Lit ''/*'', Lazy AnyChar, Lit ''*/'']"

text \<open>\<^verbatim>\<open>re.sub\<close> of the block comment pattern by the empty string; again every match is
  non-empty.\<close>

function remove_block_comments :: "char option \<Rightarrow> string \<Rightarrow> string" where
  "remove_block_comments p s =
     (case rsearch_from block_comment_pattern [] p s of
        None \<Rightarrow> s
      | Some (before, matched, p', rest) \<Rightarrow> before @ remove_block_comments p' rest)"
  by pat_completeness auto
termination
  by (relation "measure (\<lambda>(p, s). length s)")
     (auto dest!: rsearch_from_length_less [rotated] simp: block_comment_pattern_def)

declare remove_block_comments.simps [simp del]

subsection \<open>Statements that are kept whole\<close>

definition ddl_verbs :: "string list" where
  "ddl_verbs = [''CREATE'', ''ALTER'', ''DROP'']"

definition complex_patterns :: "rx list list" where
  "complex_patterns =
     [[WordB, Alt ddl_verbs, Plus Space, Alt [''PROCEDURE'', ''PROC''], Plus Space],
      [WordB, Alt ddl_verbs, Plus Space, Alt [''FUNCTION'', ''FUNC''], Plus Space],
      [WordB, Alt ddl_verbs, Plus Space, Lit ''TRIGGER'', Plus Space],
      [WordB, Alt ddl_verbs, Plus Space, Lit ''VIEW'', Plus Space, Lazy AnyChar,
       WordB, Lit ''AS'', WordB, Lazy AnyChar, WordB, Lit ''SELECT'', WordB],
      [WordB, Alt [''EXEC'', ''EXECUTE''], Plus Space, Plus Word],
      [WordB, Lit ''DECLARE'', Plus Space, Lit ''@'', Plus Word],
      [WordB, Lit ''BEGIN'', WordB, Lazy AnyChar, WordB, Lit ''END'', WordB]]"

text \<open>\<^verbatim>\<open>r'\b(CREATE|ALTER|DROP)\s+(PROCEDURE|PROC|FUNCTION|FUNC|TRIGGER)\s+'\<close>, the test
  of line 157.\<close>

definition routine_pattern :: "rx list" where
  "routine_pattern =
     [WordB, Alt ddl_verbs, Plus Space,
      Alt [''PROCEDURE'', ''PROC'', ''FUNCTION'', ''FUNC'', ''TRIGGER''], Plus Space]"

text \<open>\<^verbatim>\<open>r'\b(EXEC|EXECUTE)\s+\w+'\<close>, the test of line 160.\<close>

definition exec_pattern :: "rx list" where
  "exec_pattern = [WordB, Alt [''EXEC'', ''EXECUTE''], Plus Space, Plus Word]"

text \<open>The loop over \<^verbatim>\<open>complex_patterns\<close>: \<open>True\<close> when it returns \<^verbatim>\<open>[query]\<close>. A pattern
  that matches leads to a return only through one of the two inner tests.\<close>

fun is_complex :: "rx list list \<Rightarrow> string \<Rightarrow> bool" where
  "is_complex [] query = False"
| "is_complex (pattern # patterns) query =
     (if re_search pattern query
      then (if re_search routine_pattern query then True
            else if re_search exec_pattern query then True
            else is_complex patterns query)
      else is_complex patterns query)"

subsection \<open>The character scan\<close>

text \<open>
  The variables of the \<^verbatim>\<open>while\<close> loop. (\<^verbatim>\<open>bracket_depth\<close> is initialised and never used
  by the source; it is left out.) \<^verbatim>\<open>paren_depth\<close> and \<^verbatim>\<open>begin_end_depth\<close> are Python
  integers.
\<close>

record scan_state =
  i :: nat
  statements :: "string list"
  current_statement :: string
  in_string :: bool
  string_char :: "char option"
  in_bracket :: bool
  paren_depth :: int
  begin_end_depth :: int

definition scan_init :: scan_state where
  "scan_init = \<lparr> i = 0, statements = [], current_statement = [], in_string = False,
     string_char = None, in_bracket = False, paren_depth = 0, begin_end_depth = 0 \<rparr>"

text \<open>The end of the loop body: \<^verbatim>\<open>current_statement += char; i += 1\<close>.\<close>

definition advance :: "scan_state \<Rightarrow> char \<Rightarrow> scan_state" where
  "advance st char = st\<lparr> current_statement := current_statement st @ [char], i := i st + 1 \<rparr>"

text \<open>
  \<^verbatim>\<open>(i == 0 or not query[i-1].isalnum()) and (i+n >= len(query) or not query[i+n].isalnum())\<close>
  with the short-circuit evaluation of \<^verbatim>\<open>or\<close> and \<^verbatim>\<open>and\<close>; the index \<^verbatim>\<open>i\<close> is the argument \<open>k\<close>.
\<close>

definition word_boundary :: "string \<Rightarrow> nat \<Rightarrow> nat \<Rightarrow> error + bool" where
  "word_boundary query k n =
     (case (if k = 0 then Inr True
            else (case py_index query (k - 1) of
                    Inl e \<Rightarrow> Inl e
                  | Inr c \<Rightarrow> Inr (\<not> isalnum c))) of
        Inl e \<Rightarrow> Inl e
      | Inr before_ok \<Rightarrow>
          if \<not> before_ok then Inr False
          else if k + n \<ge> length query then Inr True
          else (case py_index query (k + n) of
                  Inl e \<Rightarrow> Inl e
                | Inr c \<Rightarrow> Inr (\<not> isalnum c)))"

text \<open>The terminator branch: the statement collected so far is appended when it is not
  blank, the accumulator restarts, and \<^verbatim>\<open>continue\<close> skips the append of the character.\<close>

definition terminate_statement :: "scan_state \<Rightarrow> scan_state" where
  "terminate_statement st =
     st\<lparr> statements :=
           (if strip (current_statement st) \<noteq> []
            then statements st @ [strip (current_statement st)]
            else statements st),
         current_statement := [],
         i := i st + 1 \<rparr>"

text \<open>One iteration of the loop body, for \<^verbatim>\<open>i < len(query)\<close>.\<close>

definition scan_step :: "string \<Rightarrow> scan_state \<Rightarrow> error + scan_state" where
  "scan_step query st =
     (case py_index query (i st) of
        Inl e \<Rightarrow> Inl e
      | Inr char \<Rightarrow>
          if (char = SQUOTE \<or> char = DQUOTE) \<and> \<not> in_string st
          then Inr (advance (st\<lparr> in_string := True, string_char := Some char \<rparr>) char)
          else if Some char = string_char st \<and> in_string st
          then
            (if i st + 1 < length query
             then (case py_index query (i st + 1) of
                     Inl e \<Rightarrow> Inl e
                   | Inr following \<Rightarrow>
                       if Some following = string_char st
                       then Inr (advance (st\<lparr> current_statement :=
                                                 current_statement st @ [char, char],
                                               i := i st + 1 \<rparr>) char)
                       else Inr (advance (st\<lparr> in_string := False, string_char := None \<rparr>) char))
             else Inr (advance (st\<lparr> in_string := False, string_char := None \<rparr>) char))
          else if char = CHR ''['' \<and> \<not> in_string st
          then Inr (advance (st\<lparr> in_bracket := True \<rparr>) char)
          else if char = CHR '']'' \<and> in_bracket st \<and> \<not> in_string st
          then Inr (advance (st\<lparr> in_bracket := False \<rparr>) char)
          else if \<not> in_string st \<and> \<not> in_bracket st
          then
            (if char = CHR ''(''
             then Inr (advance (st\<lparr> paren_depth := paren_depth st + 1 \<rparr>) char)
             else if char = CHR '')''
             then Inr (advance (st\<lparr> paren_depth := paren_depth st - 1 \<rparr>) char)
             else if upper (slice_from query (i st) 5) = ''BEGIN''
             then (case word_boundary query (i st) 5 of
                     Inl e \<Rightarrow> Inl e
                   | Inr boundary \<Rightarrow>
                       Inr (advance (if boundary
                                     then st\<lparr> begin_end_depth := begin_end_depth st + 1 \<rparr>
                                     else st) char))
             else if upper (slice_from query (i st) 3) = ''END''
             then (case word_boundary query (i st) 3 of
                     Inl e \<Rightarrow> Inl e
                   | Inr boundary \<Rightarrow>
                       Inr (advance (if boundary
                                     then st\<lparr> begin_end_depth := max 0 (begin_end_depth st - 1) \<rparr>
                                     else st) char))
             else if char = CHR '';'' \<and> paren_depth st = 0 \<and> begin_end_depth st = 0
             then Inr (terminate_statement st)
             else Inr (advance st char))
          else Inr (advance st char))"

lemma word_boundary_total:
  "k < length query \<Longrightarrow> \<exists>b. word_boundary query k n = Inr b"
  by (auto simp: word_boundary_def py_index_def)

lemma scan_step_total:
  "i st < length query \<Longrightarrow> \<exists>st'. scan_step query st = Inr st' \<and> i st < i st'"
proof -
  assume lt: "i st < length query"
  obtain b5 where b5: "word_boundary query (i st) 5 = Inr b5"
    using word_boundary_total [OF lt] by blast
  obtain b3 where b3: "word_boundary query (i st) 3 = Inr b3"
    using word_boundary_total [OF lt] by blast
  from lt b5 b3 show ?thesis
    by (simp add: scan_step_def py_index_def advance_def terminate_statement_def)
qed

text \<open>The \<^verbatim>\<open>while i < len(query)\<close> loop. Every iteration moves \<^verbatim>\<open>i\<close> forward.\<close>

function scan_loop :: "string \<Rightarrow> scan_state \<Rightarrow> error + scan_state" where
  "scan_loop query st =
     (if i st < length query
      then (case scan_step query st of
              Inl e \<Rightarrow> Inl e
            | Inr st' \<Rightarrow> scan_loop query st')
      else Inr st)"
  by pat_completeness auto
termination
proof (relation "measure (\<lambda>(query, st). length query - i st)")
  show "wf (measure (\<lambda>(query, st). length query - i st))" by simp
next
  fix query st st'
  assume lt: "i st < length query" and step: "scan_step query st = Inr st'"
  from scan_step_total [OF lt] step have "i st < i st'" by auto
  with lt show "((query, st'), (query, st)) \<in> measure (\<lambda>(query, st). length query - i st)"
    by simp
qed

declare scan_loop.simps [simp del]

text \<open>\<^verbatim>\<open>r'\b(CREATE|ALTER)\s+(PROCEDURE|PROC)\s+'\<close>, the test of line 226.\<close>

definition create_alter_proc_pattern :: "rx list" where
  "create_alter_proc_pattern =
     [WordB, Alt [''CREATE'', ''ALTER''], Plus Space, Alt [''PROCEDURE'', ''PROC''], Plus Space]"

text \<open>The loop and what follows it: the last statement is added, and the list is
  filtered unless it is a single procedure definition.\<close>

definition scan_split :: "string \<Rightarrow> error + string list" where
  "scan_split query =
     (case scan_loop query scan_init of
        Inl e \<Rightarrow> Inl e
      | Inr st \<Rightarrow>
          (let stmts = (if strip (current_statement st) \<noteq> []
                        then statements st @ [strip (current_statement st)]
                        else statements st)
           in if length stmts = 1 \<and> re_search create_alter_proc_pattern (hd stmts)
              then Inr stmts
              else Inr (filter (\<lambda>stmt. stmt \<noteq> [] \<and> strip stmt \<noteq> []) stmts)))"

subsection \<open>The splitter\<close>

definition strip_comments :: "string \<Rightarrow> string" where
  "strip_comments query =
     strip (remove_block_comments None
              (join [NL] (map remove_line_comment (split_on NL query))))"

definition split_sql_statements :: "string \<Rightarrow> error + string list" where
  "split_sql_statements query0 =
     (let query = strip query0 in
      if query = [] then Inr []
      else if re_search go_pattern query
      then Inr (filter (\<lambda>stmt. stmt \<noteq> [] \<and> strip stmt \<noteq> [])
                  (filter (\<lambda>batch. batch \<noteq> []) (map strip (re_split_go None query))))
      else (case drop_create_split query of
              Some units \<Rightarrow> Inr units
            | None \<Rightarrow>
                (let query' = strip_comments query in
                 if is_complex complex_patterns query' then Inr [query']
                 else scan_split query')))"


section \<open>Running the statements on one database\<close>

text \<open>
  The database driver is outside the program. Its behaviour during one run is given as a
  script: for each database, whether the connection opens, and for each statement (by
  position and text) what the cursor does. \<^verbatim>\<open>pyodbc.DatabaseError\<close> is the exception that
  the inner handler of \<^verbatim>\<open>_execute_on_database\<close> catches; any other exception reaches the
  outer handler. Both carry the text of \<^verbatim>\<open>str(e)\<close>.
\<close>

datatype exc = DatabaseError string | OtherException string

text \<open>One result set as the cursor reports it: \<^verbatim>\<open>cursor.description\<close> (the column names,
  \<open>None\<close> when there is none), the rows that \<^verbatim>\<open>fetchmany\<close> hands out, each cell as its
  \<^verbatim>\<open>str\<close>, and \<^verbatim>\<open>cursor.rowcount\<close>.\<close>

record driver_result_set =
  description :: "string list option"
  pending_rows :: "string list list"
  rowcount :: int

text \<open>
  What happens to one statement: \<^verbatim>\<open>execute\<close>, \<^verbatim>\<open>fetchmany\<close> or \<^verbatim>\<open>nextset\<close> raises (then
  nothing has been formatted yet), or the cursor goes through its result sets (the first
  one, then one for each \<^verbatim>\<open>nextset()\<close> that returns true) and \<^verbatim>\<open>commit\<close> returns or raises.
\<close>

datatype statement_run =
    Raises exc
  | Completes driver_result_set "driver_result_set list" "exc option"

text \<open>\<^verbatim>\<open>db_manager.database_connection(db)\<close> with \<^verbatim>\<open>conn.cursor()\<close>: it fails with a
  message, or yields a cursor; leaving the \<^verbatim>\<open>with\<close> block closes the connection, which may
  raise too.\<close>

datatype connection =
    ConnectFails string
  | Connected "nat \<Rightarrow> string \<Rightarrow> statement_run" "string option"

text \<open>The environment of a run: the driver, and the readings of the clock (elapsed
  milliseconds for a database and for the run, the text of \<^verbatim>\<open>datetime.now()\<close>).\<close>

record env =
  connect :: "string \<Rightarrow> connection"
  elapsed :: "string \<Rightarrow> nat"
  total_elapsed :: nat
  now_text :: string

text \<open>\<^verbatim>\<open>if cursor.description:\<close>\<close>

definition has_columns :: "string list option \<Rightarrow> bool" where
  "has_columns d = (case d of None \<Rightarrow> False | Some cols \<Rightarrow> cols \<noteq> [])"

text \<open>The inner \<^verbatim>\<open>while True\<close> loop: batches of 1000 rows until an empty batch.\<close>

function fetch_all :: "string list list \<Rightarrow> string list list \<Rightarrow> string list list" where
  "fetch_all pending fetched =
     (if take 1000 pending = [] then fetched
      else fetch_all (drop 1000 pending) (fetched @ take 1000 pending))"
  by pat_completeness auto
termination
  by (relation "measure (\<lambda>(pending, fetched). length pending)") auto

declare fetch_all.simps [simp del]

text \<open>An entry of \<^verbatim>\<open>result_sets\<close>: \<^verbatim>\<open>(cursor.description, rows)\<close> or
  \<^verbatim>\<open>(None, cursor.rowcount)\<close>.\<close>

datatype result_set = WithColumns "string list" "string list list" | CountOnly int

text \<open>The outer \<^verbatim>\<open>while True\<close> loop over the result sets of one statement. A result set
  with columns is recorded only \<^verbatim>\<open>if rows\<close>.\<close>

fun collect_result_sets :: "driver_result_set list \<Rightarrow> result_set list" where
  "collect_result_sets [] = []"
| "collect_result_sets (rs # others) =
     (if has_columns (description rs)
      then (if fetch_all (pending_rows rs) [] \<noteq> []
            then [WithColumns (the (description rs)) (fetch_all (pending_rows rs) [])]
            else [])
      else [CountOnly (rowcount rs)])
     @ collect_result_sets others"

text \<open>
  The rendered text blocks contain characters outside the range of \<^typ>\<open>char\<close>, so a block
  is kept as the arguments it is rendered from: the table of \<^verbatim>\<open>_format_query_results\<close>
  (database, statement number, result set number, column names, rows), its
  \<^verbatim>\<open>No rows returned\<close> variant, \<^verbatim>\<open>Rows affected: n\<close>, \<^verbatim>\<open>Command completed successfully\<close>,
  and the two error blocks.
\<close>

datatype block =
    RowsBlock string nat "nat option" "string list" "string list list"
  | NoRowsBlock string nat "nat option"
  | RowsAffectedBlock string nat int
  | CompletedBlock string nat
  | StatementErrorBlock string nat string
  | ConnectionErrorBlock string string

definition format_query_results ::
    "string list \<Rightarrow> string list list \<Rightarrow> string \<Rightarrow> nat \<Rightarrow> nat option \<Rightarrow> block" where
  "format_query_results cols rws db_name statement_num result_set_num =
     (if rws = [] then NoRowsBlock db_name statement_num result_set_num
      else RowsBlock db_name statement_num result_set_num cols rws)"

record db_state =
  db_total_rows :: nat
  db_errors :: "string list"
  db_statement_count :: nat
  db_results :: "block list"

definition db_state_init :: db_state where
  "db_state_init = \<lparr> db_total_rows = 0, db_errors = [], db_statement_count = 0, db_results = [] \<rparr>"

text \<open>\<^verbatim>\<open>for j, result_set in enumerate(result_sets)\<close>; \<open>n\<close> is \<^verbatim>\<open>len(result_sets)\<close>.\<close>

fun format_result_sets ::
    "string \<Rightarrow> nat \<Rightarrow> nat \<Rightarrow> nat \<Rightarrow> result_set list \<Rightarrow> db_state \<Rightarrow> db_state" where
  "format_result_sets db k n j [] st = st"
| "format_result_sets db k n j (WithColumns cols rws # rest) st =
     format_result_sets db k n (j + 1) rest
       (st\<lparr> db_results := db_results st @
               [format_query_results cols rws db k (if n > 1 then Some (j + 1) else None)],
             db_total_rows := db_total_rows st + length rws \<rparr>)"
| "format_result_sets db k n j (CountOnly data # rest) st =
     format_result_sets db k n (j + 1) rest
       (st\<lparr> db_results := db_results st @
               [if data > 0 then RowsAffectedBlock db k data else CompletedBlock db k] \<rparr>)"

text \<open>\<^verbatim>\<open>if result_sets: ... else:\<close> the block for a statement without any recorded result
  set.\<close>

definition format_results :: "string \<Rightarrow> nat \<Rightarrow> result_set list \<Rightarrow> db_state \<Rightarrow> db_state" where
  "format_results db k result_sets st =
     (if result_sets \<noteq> []
      then format_result_sets db k (length result_sets) 0 result_sets st
      else st\<lparr> db_results := db_results st @ [CompletedBlock db k] \<rparr>)"

text \<open>\<^verbatim>\<open>str(i)\<close> for a natural number.\<close>

fun str_nat :: "nat \<Rightarrow> string" where
  "str_nat n =
     (if n < 10 then [char_of (48 + n)]
      else str_nat (n div 10) @ [char_of (48 + n mod 10)])"

declare str_nat.simps [simp del]

text \<open>An exception inside the \<^verbatim>\<open>try\<close> of one statement: a \<^verbatim>\<open>DatabaseError\<close> is recorded and
  the loop goes on; any other exception leaves the loop (second component).\<close>

definition handle_exc :: "string \<Rightarrow> nat \<Rightarrow> exc \<Rightarrow> db_state \<Rightarrow> db_state \<times> string option" where
  "handle_exc db k e st =
     (case e of
        DatabaseError msg \<Rightarrow>
          (st\<lparr> db_results := db_results st @ [StatementErrorBlock db k msg],
               db_errors := db_errors st @ [''Statement '' @ str_nat k @ '': '' @ msg] \<rparr>,
           None)
      | OtherException msg \<Rightarrow> (st, Some msg))"

text \<open>The body of \<^verbatim>\<open>for i, statement in enumerate(statements, 1)\<close>.\<close>

definition execute_statement ::
    "string \<Rightarrow> nat \<Rightarrow> statement_run \<Rightarrow> db_state \<Rightarrow> db_state \<times> string option" where
  "execute_statement db k run st =
     (let st1 = st\<lparr> db_statement_count := db_statement_count st + 1 \<rparr> in
      case run of
        Raises e \<Rightarrow> handle_exc db k e st1
      | Completes first others commit_raises \<Rightarrow>
          (let st2 = format_results db k (collect_result_sets (first # others)) st1 in
           case commit_raises of
             None \<Rightarrow> (st2, None)
           | Some e \<Rightarrow> handle_exc db k e st2))"

fun run_statements ::
    "string \<Rightarrow> (nat \<Rightarrow> string \<Rightarrow> statement_run) \<Rightarrow> nat \<Rightarrow> string list \<Rightarrow> db_state
      \<Rightarrow> db_state \<times> string option" where
  "run_statements db cursor k [] st = (st, None)"
| "run_statements db cursor k (statement # rest) st =
     (case execute_statement db k (cursor k statement) st of
        (st', Some msg) \<Rightarrow> (st', Some msg)
      | (st', None) \<Rightarrow> run_statements db cursor (k + 1) rest st')"

text \<open>The record returned for one database.\<close>

record db_info =
  name :: string
  exec_time :: nat
  total_rows :: nat
  status :: string
  statement_count :: nat
  errors :: "string list"
  results :: "block list"

text \<open>The messages put on the queue, and the two things a run does to the outside.\<close>

datatype message = StatusConnecting string | ExecutionSummary string | Result block

datatype action = Put message | Connect string

text \<open>The \<^verbatim>\<open>try\<close> block of \<^verbatim>\<open>_execute_on_database\<close>: the final state and the message of an
  exception that reached the outer handler. An exception of \<^verbatim>\<open>conn.close()\<close> replaces the
  one that was being propagated.\<close>

definition try_database :: "env \<Rightarrow> string \<Rightarrow> string list \<Rightarrow> db_state \<times> string option" where
  "try_database e db stmts =
     (case connect e db of
        ConnectFails msg \<Rightarrow> (db_state_init, Some msg)
      | Connected cursor close_raises \<Rightarrow>
          (case run_statements db cursor 1 stmts db_state_init of
             (st, Some msg) \<Rightarrow>
               (st, Some (case close_raises of None \<Rightarrow> msg | Some msg' \<Rightarrow> msg'))
           | (st, None) \<Rightarrow> (st, close_raises)))"

definition execute_on_database :: "env \<Rightarrow> string \<Rightarrow> string list \<Rightarrow> db_info \<times> action list" where
  "execute_on_database e db stmts =
     (let (st, escaped) = try_database e db stmts;
          st' = (case escaped of
                   None \<Rightarrow> st
                 | Some msg \<Rightarrow>
                     st\<lparr> db_results := db_results st @ [ConnectionErrorBlock db msg],
                          db_errors := db_errors st @ [''Connection: '' @ msg] \<rparr>)
      in (\<lparr> name = db,
            exec_time = elapsed e db,
            total_rows = db_total_rows st',
            status = (if db_errors st' = [] then ''Success'' else ''Error''),
            statement_count = db_statement_count st',
            errors = db_errors st',
            results = db_results st' \<rparr>,
          [Put (StatusConnecting db), Connect db]))"

section \<open>The summary and the result feed\<close>

text \<open>\<^verbatim>\<open>f"{n:,}"\<close>: decimal digits in groups of three.\<close>

fun fmt_commas :: "nat \<Rightarrow> string" where
  "fmt_commas n =
     (if n < 1000 then str_nat n
      else fmt_commas (n div 1000) @ '','' @
           [char_of (48 + n mod 1000 div 100), char_of (48 + n mod 100 div 10),
            char_of (48 + n mod 10)])"

declare fmt_commas.simps [simp del]

text \<open>\<^verbatim>\<open>f"{t:.3f}"\<close> for a time given in milliseconds.\<close>

definition fmt_seconds :: "nat \<Rightarrow> string" where
  "fmt_seconds ms =
     str_nat (ms div 1000) @ ''.'' @
     [char_of (48 + ms mod 1000 div 100), char_of (48 + ms mod 100 div 10),
      char_of (48 + ms mod 10)]"

text \<open>\<^verbatim>\<open>f" {text:<{width-1}}|"\<close>\<close>

definition cell :: "string \<Rightarrow> nat \<Rightarrow> string" where
  "cell txt width = '' '' @ txt @ replicate (width - 1 - length txt) CHR '' '' @ ''|''"

definition col_widths :: "nat list" where
  "col_widths = [20, 10, 12, 12, 10, 30]"

definition table_row :: "string list \<Rightarrow> string" where
  "table_row row_data = ''|'' @ concat (map (\<lambda>(d, width). cell d width) (zip row_data col_widths))"

definition error_summary :: "db_info \<Rightarrow> string" where
  "error_summary db =
     (if errors db \<noteq> []
      then (if length (errors db) = 1
            then (if length (hd (errors db)) > 25
                  then take 25 (hd (errors db)) @ ''...''
                  else hd (errors db))
            else str_nat (length (errors db)) @ '' error(s)'')
      else ''None'')"

text \<open>The body of the loop over the records: one row of the table.\<close>

definition data_row :: "db_info \<Rightarrow> string" where
  "data_row db =
     table_row [take 19 (name db), fmt_seconds (exec_time db), fmt_commas (total_rows db),
                str_nat (statement_count db), status db, error_summary db]"

text \<open>\<^verbatim>\<open>for db_info in reversed(databases_info): ... summary_lines.append(data_row)\<close>\<close>

fun append_data_rows :: "db_info list \<Rightarrow> string list \<Rightarrow> string list" where
  "append_data_rows [] summary_lines = summary_lines"
| "append_data_rows (db # rest) summary_lines =
     append_data_rows rest (summary_lines @ [data_row db])"

definition sep_row :: string where
  "sep_row = ''|'' @ concat (map (\<lambda>width. replicate width CHR ''-'' @ ''|'') col_widths)"

definition summary_header :: "db_info list \<Rightarrow> nat \<Rightarrow> nat \<Rightarrow> string \<Rightarrow> string list" where
  "summary_header databases_info total_exec_time overall_total_rows now =
     [replicate 100 CHR ''='',
      ''EXECUTION SUMMARY'',
      replicate 100 CHR ''='',
      ''Total Execution Time: '' @ fmt_seconds total_exec_time @ '' seconds'',
      ''Overall Total Rows  : '' @ fmt_commas overall_total_rows,
      ''Databases Processed : '' @ str_nat (length databases_info),
      ''Executed At         : '' @ now,
      '''',
      ''DATABASE EXECUTION DETAILS'',
      replicate 100 CHR ''='',
      table_row [''Database'', ''Time(s)'', ''Rows'', ''Statements'', ''Status'', ''Errors''],
      sep_row]"

definition summary_lines :: "db_info list \<Rightarrow> nat \<Rightarrow> nat \<Rightarrow> string \<Rightarrow> string list" where
  "summary_lines databases_info total_exec_time overall_total_rows now =
     append_data_rows (rev databases_info)
       (summary_header databases_info total_exec_time overall_total_rows now)
     @ [sep_row, replicate 100 CHR ''='', '''']"

definition generate_execution_summary :: "db_info list \<Rightarrow> nat \<Rightarrow> nat \<Rightarrow> string \<Rightarrow> string" where
  "generate_execution_summary databases_info total_exec_time overall_total_rows now =
     join [NL] (summary_lines databases_info total_exec_time overall_total_rows now)"

text \<open>\<^verbatim>\<open>for db_info in reversed(databases_info): for result in db_info['results']: put\<close>\<close>

fun put_results :: "db_info list \<Rightarrow> message list" where
  "put_results [] = []"
| "put_results (db # rest) = map Result (results db) @ put_results rest"

definition send_results :: "db_info list \<Rightarrow> nat \<Rightarrow> nat \<Rightarrow> string \<Rightarrow> message list" where
  "send_results databases_info total_exec_time overall_total_rows now =
     ExecutionSummary
       (generate_execution_summary databases_info total_exec_time overall_total_rows now)
     # put_results (rev databases_info)"

section \<open>The run over the selected databases\<close>

record run_result =
  run_exec_time :: nat
  run_total_rows :: nat
  databases_info :: "db_info list"

text \<open>\<^verbatim>\<open>for db in databases\<close>: the records, the row total and what was done so far.\<close>

fun run_databases ::
    "env \<Rightarrow> string list \<Rightarrow> string list \<Rightarrow> db_info list \<times> nat \<times> action list
      \<Rightarrow> db_info list \<times> nat \<times> action list" where
  "run_databases e stmts [] acc = acc"
| "run_databases e stmts (db # rest) (infos, overall_total_rows, done) =
     (case execute_on_database e db stmts of
        (info, acts) \<Rightarrow>
          run_databases e stmts rest
            (infos @ [info], overall_total_rows + total_rows info, done @ acts))"

text \<open>
  \<^verbatim>\<open>execute_query\<close> for a query that is a \<^verbatim>\<open>str\<close>. The result is what the run did to the
  outside (connections opened, messages put) and the returned record or the exception
  raised.
\<close>

definition execute_query :: "env \<Rightarrow> string list \<Rightarrow> string \<Rightarrow> action list \<times> (error + run_result)" where
  "execute_query e databases query =
     (if query = [] \<or> strip query = [] then ([], Inl (ValueError ''Query cannot be empty''))
      else if databases = [] then ([], Inl (ValueError ''No databases selected''))
      else (case split_sql_statements query of
              Inl err \<Rightarrow> ([], Inl err)
            | Inr stmts \<Rightarrow>
                if stmts = [] then ([], Inl (ValueError ''No valid SQL statements found''))
                else (case run_databases e stmts databases ([], 0, []) of
                        (infos, overall_total_rows, done) \<Rightarrow>
                          (done @ map Put (send_results infos (total_elapsed e)
                                             overall_total_rows (now_text e)),
                           Inr \<lparr> run_exec_time = total_elapsed e,
                                 run_total_rows = overall_total_rows,
                                 databases_info = infos \<rparr>))))"


section \<open>Example runs\<close>

text \<open>A statement that returns one result set with one column and one row.\<close>

definition one_row :: statement_run where
  "one_row =
     Completes \<lparr> description = Some [''c''], pending_rows = [[''1'']], rowcount = - 1 \<rparr> [] None"

text \<open>A driver on which database \<open>B\<close> cannot be reached, and every statement on any other
  database returns one row.\<close>

definition env_b_down :: env where
  "env_b_down =
     \<lparr> connect = (\<lambda>db. if db = ''B'' then ConnectFails ''down''
                         else Connected (\<lambda>k statement. one_row) None),
       elapsed = (\<lambda>db. 1234),
       total_elapsed = 5000,
       now_text = ''2024-01-01 00:00:00'' \<rparr>"


text \<open>A driver on which the first statement on database \<open>A\<close> fails with a
  \<^verbatim>\<open>DatabaseError\<close>, and every other statement returns one row.\<close>

definition cursor_first_fails :: "nat \<Rightarrow> string \<Rightarrow> statement_run" where
  "cursor_first_fails k statement = (if k = 1 then Raises (DatabaseError ''bad'') else one_row)"

definition env_a_fails :: env where
  "env_a_fails =
     \<lparr> connect = (\<lambda>db. if db = ''A'' then Connected cursor_first_fails None
                         else Connected (\<lambda>k statement. one_row) None),
       elapsed = (\<lambda>db. 1234),
       total_elapsed = 5000,
       now_text = ''2024-01-01 00:00:00'' \<rparr>"

text \<open>A statement with two result sets: columns without rows, then one row.\<close>

definition empty_then_row :: statement_run where
  "empty_then_row =
     Completes \<lparr> description = Some [''c''], pending_rows = [], rowcount = - 1 \<rparr>
               [\<lparr> description = Some [''d''], pending_rows = [[''1'']], rowcount = - 1 \<rparr>]
               None"

section \<open>Notions used to state the properties of a run\<close>

text \<open>The result sets that the loop over \<^verbatim>\<open>nextset()\<close> appends to \<^verbatim>\<open>result_sets\<close>: those
  without columns, and those with columns and at least one row.\<close>

definition recorded :: "driver_result_set \<Rightarrow> bool" where
  "recorded rs = (if has_columns (description rs) then pending_rows rs \<noteq> [] else True)"

definition as_result_set :: "driver_result_set \<Rightarrow> result_set" where
  "as_result_set rs =
     (if has_columns (description rs) then WithColumns (the (description rs)) (pending_rows rs)
      else CountOnly (rowcount rs))"

text \<open>The block for the recorded result set at position \<open>j\<close> (from 0) of statement \<open>k\<close>,
  when \<open>n\<close> result sets were recorded.\<close>

definition outcome :: "string \<Rightarrow> nat \<Rightarrow> nat \<Rightarrow> nat \<Rightarrow> driver_result_set \<Rightarrow> block" where
  "outcome db k n j rs =
     (if has_columns (description rs)
      then RowsBlock db k (if n > 1 then Some (j + 1) else None)
             (the (description rs)) (pending_rows rs)
      else if rowcount rs > 0 then RowsAffectedBlock db k (rowcount rs)
      else CompletedBlock db k)"

text \<open>A statement that returns, its \<^verbatim>\<open>commit\<close> included.\<close>

fun completes :: "statement_run \<Rightarrow> bool" where
  "completes (Completes first others None) = True"
| "completes _ = False"

text \<open>A statement that returns or raises a \<^verbatim>\<open>DatabaseError\<close>.\<close>

fun database_errors_only :: "statement_run \<Rightarrow> bool" where
  "database_errors_only (Raises (OtherException msg)) = False"
| "database_errors_only (Completes first others (Some (OtherException msg))) = False"
| "database_errors_only _ = True"

text \<open>The state after the inner handler has recorded a \<^verbatim>\<open>DatabaseError\<close> for statement
  \<open>k\<close>.\<close>

definition record_statement_error :: "string \<Rightarrow> nat \<Rightarrow> string \<Rightarrow> db_state \<Rightarrow> db_state" where
  "record_statement_error db k msg st =
     st\<lparr> db_results := db_results st @ [StatementErrorBlock db k msg],
         db_errors := db_errors st @ [''Statement '' @ str_nat k @ '': '' @ msg] \<rparr>"

text \<open>The lines of the summary table between its header and its footer.\<close>

definition table_rows :: "string list \<Rightarrow> string list" where
  "table_rows lines = take (length lines - 15) (drop 12 lines)"

text \<open>The blocks among the messages put on the queue, in the order they were put.\<close>

fun streamed_blocks :: "message list \<Rightarrow> block list" where
  "streamed_blocks [] = []"
| "streamed_blocks (Result b # ms) = b # streamed_blocks ms"
| "streamed_blocks (m # ms) = streamed_blocks ms"

text \<open>The states that the \<^verbatim>\<open>while\<close> loop of the scan goes through on a query.\<close>

inductive reachable :: "string \<Rightarrow> scan_state \<Rightarrow> bool" for query :: string where
  init: "reachable query scan_init"
| step: "reachable query st \<Longrightarrow> i st < length query \<Longrightarrow> scan_step query st = Inr st'
          \<Longrightarrow> reachable query st'"

text \<open>The databases for which a connection was asked, in order.\<close>

fun connections :: "action list \<Rightarrow> string list" where
  "connections [] = []"
| "connections (Connect db # acts) = db # connections acts"
| "connections (Put m # acts) = connections acts"

section \<open>What one statement leaves in the record\<close>

text \<open>The blocks that the formatting loop appends for the result sets of statement \<open>k\<close>.\<close>

definition result_blocks :: "string \<Rightarrow> nat \<Rightarrow> driver_result_set list \<Rightarrow> block list" where
  "result_blocks db k sets =
     (if filter recorded sets = [] then [CompletedBlock db k]
      else map (\<lambda>(j, rs). outcome db k (length (filter recorded sets)) j rs)
             (enumerate 0 (filter recorded sets)))"

text \<open>The exception of a statement that reaches the outer handler, if any.\<close>

fun escapes :: "statement_run \<Rightarrow> string option" where
  "escapes (Raises (DatabaseError msg)) = None"
| "escapes (Raises (OtherException msg)) = Some msg"
| "escapes (Completes first others None) = None"
| "escapes (Completes first others (Some (DatabaseError msg))) = None"
| "escapes (Completes first others (Some (OtherException msg))) = Some msg"

text \<open>The blocks and the error messages that statement \<open>k\<close> adds to the record.\<close>

fun blocks_of :: "string \<Rightarrow> nat \<Rightarrow> statement_run \<Rightarrow> block list" where
  "blocks_of db k (Raises (DatabaseError msg)) = [StatementErrorBlock db k msg]"
| "blocks_of db k (Raises (OtherException msg)) = []"
| "blocks_of db k (Completes first others None) = result_blocks db k (first # others)"
| "blocks_of db k (Completes first others (Some (DatabaseError msg))) =
     result_blocks db k (first # others) @ [StatementErrorBlock db k msg]"
| "blocks_of db k (Completes first others (Some (OtherException msg))) =
     result_blocks db k (first # others)"

fun errors_of :: "nat \<Rightarrow> statement_run \<Rightarrow> string list" where
  "errors_of k (Raises (DatabaseError msg)) = [''Statement '' @ str_nat k @ '': '' @ msg]"
| "errors_of k (Raises (OtherException msg)) = []"
| "errors_of k (Completes first others None) = []"
| "errors_of k (Completes first others (Some (DatabaseError msg))) =
     [''Statement '' @ str_nat k @ '': '' @ msg]"
| "errors_of k (Completes first others (Some (OtherException msg))) = []"

text \<open>The statements that are executed, with their numbers from \<open>k\<close> on: all of them up to
  and including the first one whose exception reaches the outer handler.\<close>

fun executed :: "(nat \<Rightarrow> string \<Rightarrow> statement_run) \<Rightarrow> nat \<Rightarrow> string list
    \<Rightarrow> (nat \<times> statement_run) list" where
  "executed cursor k [] = []"
| "executed cursor k (statement # rest) =
     (k, cursor k statement) #
     (if escapes (cursor k statement) = None then executed cursor (k + 1) rest else [])"

text \<open>The exception that reaches the outer handler of \<^verbatim>\<open>_execute_on_database\<close> after these
  statements were executed and the connection was closed.\<close>

definition outer_error :: "(nat \<times> statement_run) list \<Rightarrow> string option \<Rightarrow> string option" where
  "outer_error ex close_raises =
     (case (if ex = [] then None else escapes (snd (last ex))) of
        None \<Rightarrow> close_raises
      | Some msg \<Rightarrow> Some (case close_raises of None \<Rightarrow> msg | Some msg' \<Rightarrow> msg'))"

text \<open>A driver on which the first statement on database \<open>A\<close> raises an exception that is
  not a \<^verbatim>\<open>DatabaseError\<close>, and every other statement returns one row.\<close>

definition cursor_first_escapes :: "nat \<Rightarrow> string \<Rightarrow> statement_run" where
  "cursor_first_escapes k statement =
     (if k = 1 then Raises (OtherException ''boom'') else one_row)"

definition env_a_escapes :: env where
  "env_a_escapes =
     \<lparr> connect = (\<lambda>db. if db = ''A'' then Connected cursor_first_escapes None
                         else Connected (\<lambda>k statement. one_row) None),
       elapsed = (\<lambda>db. 1234),
       total_elapsed = 5000,
       now_text = ''2024-01-01 00:00:00'' \<rparr>"

text \<open>A statement that returns one row and whose \<^verbatim>\<open>commit\<close> raises a \<^verbatim>\<open>DatabaseError\<close>.\<close>

definition row_then_commit_fails :: statement_run where
  "row_then_commit_fails =
     Completes \<lparr> description = Some [''c''], pending_rows = [[''1'']], rowcount = - 1 \<rparr> []
               (Some (DatabaseError ''deadlock''))"

section \<open>Facts about the run on one database\<close>

lemma fetch_all_append: "fetch_all pending fetched = fetched @ pending"
proof (induction pending fetched rule: fetch_all.induct)
  case (1 pending fetched)
  show ?case
  proof (cases "take 1000 pending = []")
    case True
    then have "pending = []" by simp
    with True show ?thesis by (subst fetch_all.simps) simp
  next
    case False
    from 1 [OF False]
    have "fetch_all (drop 1000 pending) (fetched @ take 1000 pending) = fetched @ pending"
      by simp
    with False show ?thesis by (subst fetch_all.simps) simp
  qed
qed

lemma collect_result_sets_recorded:
  "collect_result_sets sets = map as_result_set (filter recorded sets)"
  by (induction sets) (simp_all add: recorded_def as_result_set_def fetch_all_append)

lemma format_result_sets_errors:
  "db_errors (format_result_sets db k n j rsets st) = db_errors st"
  by (induction db k n j rsets st rule: format_result_sets.induct) simp_all

lemma format_result_sets_count:
  "db_statement_count (format_result_sets db k n j rsets st) = db_statement_count st"
  by (induction db k n j rsets st rule: format_result_sets.induct) simp_all

lemma format_results_errors: "db_errors (format_results db k rsets st) = db_errors st"
  by (simp add: format_results_def format_result_sets_errors)

lemma format_results_count:
  "db_statement_count (format_results db k rsets st) = db_statement_count st"
  by (simp add: format_results_def format_result_sets_count)

lemma format_result_sets_results:
  "db_results (format_result_sets db k n j (map as_result_set (filter recorded sets)) st) =
     db_results st @ map (\<lambda>(j', rs). outcome db k n j' rs) (enumerate j (filter recorded sets))"
proof (induction sets arbitrary: j st)
  case Nil
  show ?case by simp
next
  case (Cons rs sets)
  show ?case
  proof (cases "recorded rs")
    case False
    then show ?thesis using Cons by simp
  next
    case True
    show ?thesis
    proof (cases "has_columns (description rs)")
      case cols: True
      with True have ne: "pending_rows rs \<noteq> []" by (simp add: recorded_def)
      from cols have a: "as_result_set rs = WithColumns (the (description rs)) (pending_rows rs)"
        by (simp add: as_result_set_def)
      from cols ne have o: "outcome db k n j rs =
          RowsBlock db k (if n > 1 then Some (j + 1) else None)
            (the (description rs)) (pending_rows rs)"
        by (simp add: outcome_def)
      from True ne show ?thesis
        by (simp add: a o Cons format_query_results_def)
    next
      case nocols: False
      then have a: "as_result_set rs = CountOnly (rowcount rs)"
        by (simp add: as_result_set_def)
      from nocols have o: "outcome db k n j rs =
          (if rowcount rs > 0 then RowsAffectedBlock db k (rowcount rs)
           else CompletedBlock db k)"
        by (simp add: outcome_def)
      from True show ?thesis
        by (simp add: a o Cons)
    qed
  qed
qed

lemma execute_statement_completes:
  "execute_statement db k (Completes first others None) st =
     (format_results db k (collect_result_sets (first # others))
        (st\<lparr> db_statement_count := db_statement_count st + 1 \<rparr>), None)"
  by (simp add: execute_statement_def Let_def)

lemma execute_statement_database_error:
  "execute_statement db k (Raises (DatabaseError msg)) st =
     (record_statement_error db k msg (st\<lparr> db_statement_count := db_statement_count st + 1 \<rparr>),
      None)"
  by (simp add: execute_statement_def handle_exc_def record_statement_error_def Let_def)

lemma execute_statement_count:
  "db_statement_count (fst (execute_statement db k run st)) = db_statement_count st + 1"
  by (cases run)
     (auto simp: execute_statement_def handle_exc_def Let_def format_results_count
           split: exc.splits option.splits)

lemma execute_statement_goes_on:
  "database_errors_only run \<Longrightarrow> snd (execute_statement db k run st) = None"
  by (cases run rule: database_errors_only.cases)
     (auto simp: execute_statement_def handle_exc_def Let_def split: exc.splits option.splits)

lemma execute_statement_no_error:
  "completes run \<Longrightarrow> db_errors (fst (execute_statement db k run st)) = db_errors st"
  by (cases run rule: completes.cases)
     (auto simp: execute_statement_def Let_def format_results_errors)

lemma completes_database_errors_only: "completes run \<Longrightarrow> database_errors_only run"
  by (cases run rule: completes.cases) auto

lemma run_statements_all:
  "(\<And>k' s. database_errors_only (cursor k' s)) \<Longrightarrow>
     snd (run_statements db cursor k stmts st) = None \<and>
     db_statement_count (fst (run_statements db cursor k stmts st)) =
       db_statement_count st + length stmts"
proof (induction stmts arbitrary: k st)
  case Nil
  show ?case by simp
next
  case (Cons s stmts)
  obtain st' r where ex: "execute_statement db k (cursor k s) st = (st', r)"
    by (cases "execute_statement db k (cursor k s) st")
  from Cons.prems have "database_errors_only (cursor k s)" .
  from execute_statement_goes_on [OF this, of db k st] ex have r: "r = None" by simp
  from execute_statement_count [of db k "cursor k s" st] ex
  have c: "db_statement_count st' = db_statement_count st + 1" by simp
  from Cons.IH [OF Cons.prems, of "k + 1" st'] ex r c show ?case by simp
qed

lemma run_statements_no_errors:
  "(\<And>k' s. completes (cursor k' s)) \<Longrightarrow>
     db_errors (fst (run_statements db cursor k stmts st)) = db_errors st"
proof (induction stmts arbitrary: k st)
  case Nil
  show ?case by simp
next
  case (Cons s stmts)
  obtain st' r where ex: "execute_statement db k (cursor k s) st = (st', r)"
    by (cases "execute_statement db k (cursor k s) st")
  from Cons.prems have cs: "completes (cursor k s)" .
  from execute_statement_goes_on [OF completes_database_errors_only [OF cs], of db k st] ex
  have r: "r = None" by simp
  from execute_statement_no_error [OF cs, of db k st] ex
  have c: "db_errors st' = db_errors st" by simp
  from Cons.IH [OF Cons.prems, of "k + 1" st'] ex r c show ?case by simp
qed

lemma run_databases_eq:
  "run_databases e stmts dbs (infos, n, acts) =
     (infos @ map (\<lambda>db. fst (execute_on_database e db stmts)) dbs,
      n + sum_list (map (\<lambda>db. total_rows (fst (execute_on_database e db stmts))) dbs),
      acts @ concat (map (\<lambda>db. snd (execute_on_database e db stmts)) dbs))"
  by (induction dbs arbitrary: infos n acts) (simp_all split: prod.splits)

lemma append_data_rows_eq: "append_data_rows infos acc = acc @ map data_row infos"
  by (induction infos arbitrary: acc) simp_all

lemma put_results_eq: "put_results infos = concat (map (\<lambda>db. map Result (results db)) infos)"
  by (induction infos) simp_all

lemma streamed_blocks_results: "streamed_blocks (map Result bs) = bs"
  by (induction bs) simp_all

lemma streamed_blocks_append:
  "streamed_blocks (ms @ ms') = streamed_blocks ms @ streamed_blocks ms'"
  by (induction ms rule: streamed_blocks.induct) simp_all

lemma streamed_blocks_put_results:
  "streamed_blocks (put_results infos) = concat (map results infos)"
  by (induction infos) (simp_all add: streamed_blocks_append streamed_blocks_results)

section \<open>Facts about the splitter\<close>

lemma strip_blank: "strip s = [] \<longleftrightarrow> (\<forall>c\<in>set s. isspace c)"
proof
  assume "strip s = []"
  then have "dropWhile isspace (rev (dropWhile isspace s)) = []"
    by (simp add: strip_def rstrip_def lstrip_def)
  then have a: "\<forall>c\<in>set (dropWhile isspace s). isspace c"
    by (simp add: dropWhile_eq_Nil_conv)
  show "\<forall>c\<in>set s. isspace c"
  proof (cases "dropWhile isspace s = []")
    case True
    then show ?thesis by (simp add: dropWhile_eq_Nil_conv)
  next
    case False
    then have "\<not> isspace (hd (dropWhile isspace s))" by (rule hd_dropWhile)
    moreover from False have "hd (dropWhile isspace s) \<in> set (dropWhile isspace s)" by simp
    ultimately show ?thesis using a by blast
  qed
next
  assume "\<forall>c\<in>set s. isspace c"
  then have "dropWhile isspace s = []" by (simp add: dropWhile_eq_Nil_conv)
  then show "strip s = []"
    by (simp add: strip_def rstrip_def lstrip_def del: dropWhile_eq_Nil_conv)
qed

lemma strip_blank_splits_to_nothing: "strip query = [] \<Longrightarrow> split_sql_statements query = Inr []"
  by (simp add: split_sql_statements_def Let_def)

lemma empty_is_blank: "strip [] = []"
  by (simp add: strip_def lstrip_def rstrip_def)

lemma scan_loop_total: "\<exists>st'. scan_loop query st = Inr st'"
proof (induction query st rule: scan_loop.induct)
  case (1 query st)
  show ?case
  proof (cases "i st < length query")
    case True
    from scan_step_total [OF True] obtain st1 where s: "scan_step query st = Inr st1"
      by blast
    from 1 [OF True s] obtain st' where "scan_loop query st1 = Inr st'" by blast
    with True s show ?thesis by (subst scan_loop.simps) simp
  next
    case False
    then show ?thesis by (subst scan_loop.simps) simp
  qed
qed

lemma scan_split_total: "\<exists>units. scan_split query = Inr units"
  using scan_loop_total [of query scan_init]
  by (auto simp: scan_split_def Let_def)

lemma split_sql_statements_total: "\<exists>units. split_sql_statements query = Inr units"
  using scan_split_total [of "strip_comments (strip query)"]
  by (auto simp: split_sql_statements_def Let_def split: option.splits)

lemma scan_loop_reachable:
  "reachable query st \<Longrightarrow> scan_loop query st = Inr st' \<Longrightarrow> reachable query st'"
proof (induction query st rule: scan_loop.induct)
  case (1 query st)
  show ?case
  proof (cases "i st < length query")
    case True
    from scan_step_total [OF True] obtain st1 where s: "scan_step query st = Inr st1"
      by blast
    from "1.prems"(2) True s have l: "scan_loop query st1 = Inr st'"
      by (subst (asm) scan_loop.simps) simp
    from "1.prems"(1) True s have "reachable query st1" by (rule reachable.step)
    from "1.IH" [OF True s this l] show ?thesis .
  next
    case False
    with "1.prems"(2) have "st' = st" by (subst (asm) scan_loop.simps) simp
    with "1.prems"(1) show ?thesis by simp
  qed
qed

lemma upper_slice_head:
  "k < length q \<Longrightarrow> 0 < n \<Longrightarrow>
     upper (slice_from q k n) = upper_char (q ! k) # upper (slice_from q (Suc k) (n - 1))"
  by (cases n) (simp_all add: slice_from_def upper_def flip: Cons_nth_drop_Suc)

lemma scan_step_string_char:
  "scan_step query st = Inr st' \<Longrightarrow>
     string_char st' = string_char st \<or> string_char st' = None \<or>
     string_char st' = Some SQUOTE \<or> string_char st' = Some DQUOTE"
  by (auto simp: scan_step_def advance_def terminate_statement_def py_index_def
           split: if_splits sum.splits)

lemma scan_step_block_depth:
  "scan_step query st = Inr st' \<Longrightarrow> 0 \<le> begin_end_depth st \<Longrightarrow> 0 \<le> begin_end_depth st'"
  by (auto simp: scan_step_def advance_def terminate_statement_def py_index_def
           split: if_splits sum.splits)

lemma reachable_string_char:
  "reachable query st \<Longrightarrow>
     string_char st = None \<or> string_char st = Some SQUOTE \<or> string_char st = Some DQUOTE"
proof (induction rule: reachable.induct)
  case init
  show ?case by (simp add: scan_init_def)
next
  case (step st st')
  from scan_step_string_char [OF step.hyps(3)] step.IH show ?case by auto
qed

lemma reachable_block_depth: "reachable query st \<Longrightarrow> 0 \<le> begin_end_depth st"
proof (induction rule: reachable.induct)
  case init
  show ?case by (simp add: scan_init_def)
next
  case (step st st')
  from scan_step_block_depth [OF step.hyps(3) step.IH] show ?case .
qed

lemma scan_step_semicolon:
  assumes "i st < length query" and "query ! i st = CHR '';''"
      and "string_char st \<noteq> Some (CHR '';'')"
  shows "scan_step query st =
     Inr (if \<not> in_string st \<and> \<not> in_bracket st \<and> paren_depth st = 0 \<and> begin_end_depth st = 0
          then terminate_statement st else advance st (CHR '';''))"
proof -
  have u: "upper_char (CHR '';'') = CHR '';''" by (simp add: upper_char_def)
  from upper_slice_head [OF assms(1), of 5] assms(2) u
  have b: "upper (slice_from query (i st) 5) \<noteq> ''BEGIN''" by simp
  from upper_slice_head [OF assms(1), of 3] assms(2) u
  have e: "upper (slice_from query (i st) 3) \<noteq> ''END''" by simp
  from assms b e show ?thesis
    by (simp add: scan_step_def py_index_def SQUOTE_def DQUOTE_def)
qed

lemma scan_step_close_paren:
  assumes "i st < length query" and "query ! i st = CHR '')''"
      and "\<not> in_string st" and "\<not> in_bracket st"
  shows "scan_step query st =
     Inr (advance (st\<lparr> paren_depth := paren_depth st - 1 \<rparr>) (CHR '')''))"
  using assms by (simp add: scan_step_def py_index_def SQUOTE_def DQUOTE_def)

lemma scan_step_end:
  assumes "i st < length query" and "\<not> in_string st" and "\<not> in_bracket st"
      and "upper (slice_from query (i st) 3) = ''END''"
      and "word_boundary query (i st) 3 = Inr True"
  shows "scan_step query st =
     Inr (advance (st\<lparr> begin_end_depth := max 0 (begin_end_depth st - 1) \<rparr>) (query ! i st))"
proof -
  from upper_slice_head [OF assms(1), of 3] assms(4)
  have h: "upper_char (query ! i st) = CHR ''E''" by simp
  have c: "query ! i st \<noteq> SQUOTE \<and> query ! i st \<noteq> DQUOTE \<and> query ! i st \<noteq> CHR ''[''
      \<and> query ! i st \<noteq> CHR '']'' \<and> query ! i st \<noteq> CHR ''('' \<and> query ! i st \<noteq> CHR '')''"
    using h by (auto simp: upper_char_def SQUOTE_def DQUOTE_def)
  from upper_slice_head [OF assms(1), of 5] h
  have nb: "upper (slice_from query (i st) 5) \<noteq> ''BEGIN''" by simp
  from assms c nb show ?thesis
    by (simp add: scan_step_def py_index_def)
qed

lemma connections_puts: "connections (map Put ms) = []"
  by (induction ms) simp_all

lemma connections_append: "connections (acts @ acts') = connections acts @ connections acts'"
  by (induction acts rule: connections.induct) simp_all

lemma connections_run:
  "connections (concat (map (\<lambda>db. snd (execute_on_database e db stmts)) dbs)) = dbs"
  by (induction dbs)
     (simp_all add: connections_append execute_on_database_def Let_def split: prod.splits)

section \<open>Facts about the record of one database\<close>

lemma format_results_blocks:
  "db_results (format_results db k (collect_result_sets sets) st) =
     db_results st @ result_blocks db k sets"
  by (simp add: format_results_def collect_result_sets_recorded format_result_sets_results
        result_blocks_def)

lemma execute_statement_effect:
  "db_results (fst (execute_statement db k run st)) = db_results st @ blocks_of db k run \<and>
   db_errors (fst (execute_statement db k run st)) = db_errors st @ errors_of k run \<and>
   db_statement_count (fst (execute_statement db k run st)) = db_statement_count st + 1 \<and>
   snd (execute_statement db k run st) = escapes run"
  by (cases run rule: escapes.cases)
     (simp_all add: execute_statement_def handle_exc_def Let_def format_results_blocks
        format_results_errors format_results_count del: collect_result_sets.simps)

lemma run_statements_effect:
  "db_results (fst (run_statements db cursor k stmts st)) =
     db_results st @ concat (map (\<lambda>(k', r). blocks_of db k' r) (executed cursor k stmts)) \<and>
   db_errors (fst (run_statements db cursor k stmts st)) =
     db_errors st @ concat (map (\<lambda>(k', r). errors_of k' r) (executed cursor k stmts)) \<and>
   db_statement_count (fst (run_statements db cursor k stmts st)) =
     db_statement_count st + length (executed cursor k stmts) \<and>
   snd (run_statements db cursor k stmts st) =
     (if executed cursor k stmts = [] then None
      else escapes (snd (last (executed cursor k stmts))))"
proof (induction stmts arbitrary: k st)
  case Nil
  show ?case by simp
next
  case (Cons s stmts)
  obtain st' r where ex: "execute_statement db k (cursor k s) st = (st', r)"
    by (cases "execute_statement db k (cursor k s) st")
  from execute_statement_effect [of db k "cursor k s" st] ex
  have e: "db_results st' = db_results st @ blocks_of db k (cursor k s)"
      "db_errors st' = db_errors st @ errors_of k (cursor k s)"
      "db_statement_count st' = db_statement_count st + 1"
      "r = escapes (cursor k s)"
    by simp_all
  show ?case
  proof (cases "escapes (cursor k s)")
    case None
    with ex e Cons.IH [of "k + 1" st'] show ?thesis by simp
  next
    case (Some msg)
    with ex e show ?thesis by simp
  qed
qed

lemma execute_on_database_connect_fails:
  "connect e db = ConnectFails msg \<Longrightarrow>
     fst (execute_on_database e db stmts) =
       \<lparr> name = db, exec_time = elapsed e db, total_rows = 0, status = ''Error'',
         statement_count = 0, errors = [''Connection: '' @ msg],
         results = [ConnectionErrorBlock db msg] \<rparr>"
  by (simp add: execute_on_database_def try_database_def db_state_init_def)

lemma execute_on_database_effect:
  assumes "connect e db = Connected cursor close_raises"
  shows "statement_count (fst (execute_on_database e db stmts)) =
       length (executed cursor 1 stmts) \<and>
     errors (fst (execute_on_database e db stmts)) =
       concat (map (\<lambda>(k, r). errors_of k r) (executed cursor 1 stmts)) @
       (case outer_error (executed cursor 1 stmts) close_raises of
          None \<Rightarrow> [] | Some msg \<Rightarrow> [''Connection: '' @ msg]) \<and>
     results (fst (execute_on_database e db stmts)) =
       concat (map (\<lambda>(k, r). blocks_of db k r) (executed cursor 1 stmts)) @
       (case outer_error (executed cursor 1 stmts) close_raises of
          None \<Rightarrow> [] | Some msg \<Rightarrow> [ConnectionErrorBlock db msg])"
proof -
  define ex where "ex = executed cursor 1 stmts"
  obtain st r where rs: "run_statements db cursor 1 stmts db_state_init = (st, r)"
    by (cases "run_statements db cursor 1 stmts db_state_init")
  from run_statements_effect [of db cursor 1 stmts db_state_init] rs
  have e: "db_results st = concat (map (\<lambda>(k', r). blocks_of db k' r) ex)"
      "db_errors st = concat (map (\<lambda>(k', r). errors_of k' r) ex)"
      "db_statement_count st = length ex"
      "r = (if ex = [] then None else escapes (snd (last ex)))"
    unfolding ex_def by (simp_all add: db_state_init_def)
  have o: "outer_error ex close_raises =
      (case r of None \<Rightarrow> close_raises
       | Some msg \<Rightarrow> Some (case close_raises of None \<Rightarrow> msg | Some msg' \<Rightarrow> msg'))"
    unfolding e(4) by (simp add: outer_error_def)
  have "statement_count (fst (execute_on_database e db stmts)) = length ex \<and>
     errors (fst (execute_on_database e db stmts)) =
       concat (map (\<lambda>(k, r). errors_of k r) ex) @
       (case outer_error ex close_raises of
          None \<Rightarrow> [] | Some msg \<Rightarrow> [''Connection: '' @ msg]) \<and>
     results (fst (execute_on_database e db stmts)) =
       concat (map (\<lambda>(k, r). blocks_of db k r) ex) @
       (case outer_error ex close_raises of
          None \<Rightarrow> [] | Some msg \<Rightarrow> [ConnectionErrorBlock db msg])"
    unfolding o using assms rs e(1-3)
    by (cases r; cases close_raises)
       (simp_all add: execute_on_database_def try_database_def Let_def)
  then show ?thesis unfolding ex_def .
qed

lemma escapes_database_errors_only: "escapes run = None \<longleftrightarrow> database_errors_only run"
  by (cases run rule: escapes.cases) simp_all

lemma executed_all:
  "(\<And>k' s. database_errors_only (cursor k' s)) \<Longrightarrow>
     executed cursor k stmts = map (\<lambda>(k', s). (k', cursor k' s)) (enumerate k stmts)"
  by (induction stmts arbitrary: k) (simp_all add: escapes_database_errors_only)

lemma executed_stops:
  "j < length stmts \<Longrightarrow> (\<And>j'. j' < j \<Longrightarrow> escapes (cursor (k + j') (stmts ! j')) = None) \<Longrightarrow>
     escapes (cursor (k + j) (stmts ! j)) = Some msg \<Longrightarrow>
     length (executed cursor k stmts) = Suc j \<and> executed cursor k stmts \<noteq> [] \<and>
     escapes (snd (last (executed cursor k stmts))) = Some msg"
proof (induction stmts arbitrary: j k)
  case Nil
  then show ?case by simp
next
  case (Cons s stmts)
  show ?case
  proof (cases j)
    case 0
    with Cons.prems(3) show ?thesis by simp
  next
    case (Suc j0)
    from Cons.prems(2) [of 0] Suc have n: "escapes (cursor k s) = None" by simp
    from Cons.prems(1) Suc have l: "j0 < length stmts" by simp
    have p: "\<And>j'. j' < j0 \<Longrightarrow> escapes (cursor (k + 1 + j') (stmts ! j')) = None"
    proof -
      fix j'
      assume "j' < j0"
      with Cons.prems(2) [of "Suc j'"] Suc show "escapes (cursor (k + 1 + j') (stmts ! j')) = None"
        by simp
    qed
    from Cons.prems(3) Suc have q: "escapes (cursor (k + 1 + j0) (stmts ! j0)) = Some msg"
      by simp
    from Cons.IH [OF l p q] n Suc show ?thesis by simp
  qed
qed

lemma executed_all_outer:
  assumes "\<And>k' s. database_errors_only (cursor k' s)"
  shows "outer_error (executed cursor k stmts) close_raises = close_raises"
proof (cases "executed cursor k stmts = []")
  case True
  then show ?thesis by (simp add: outer_error_def)
next
  case False
  then have "last (executed cursor k stmts) \<in> set (executed cursor k stmts)" by simp
  then obtain k' s where "last (executed cursor k stmts) = (k', cursor k' s)"
    unfolding executed_all [of cursor, OF assms] by auto
  moreover from assms [of k' s] have "escapes (cursor k' s) = None"
    by (simp add: escapes_database_errors_only)
  ultimately show ?thesis using False
    by (simp add: outer_error_def)
qed

lemma map_executed_all:
  "map (\<lambda>(k, r). f k r) (map (\<lambda>(k, s). (k, c k s)) xs) = map (\<lambda>(k, s). f k (c k s)) xs"
  by (induction xs) auto

lemma execute_on_database_status:
  "status (fst (execute_on_database e db stmts)) =
     (if errors (fst (execute_on_database e db stmts)) = [] then ''Success'' else ''Error'')"
  by (simp add: execute_on_database_def Let_def split: prod.splits option.splits)

lemma execute_on_database_all:
  assumes "connect e db = Connected cursor close_raises"
      and "\<And>k s. database_errors_only (cursor k s)"
  shows "statement_count (fst (execute_on_database e db stmts)) = length stmts \<and>
     errors (fst (execute_on_database e db stmts)) =
       concat (map (\<lambda>(k, s). errors_of k (cursor k s)) (enumerate 1 stmts)) @
       (case close_raises of None \<Rightarrow> [] | Some msg \<Rightarrow> [''Connection: '' @ msg]) \<and>
     results (fst (execute_on_database e db stmts)) =
       concat (map (\<lambda>(k, s). blocks_of db k (cursor k s)) (enumerate 1 stmts)) @
       (case close_raises of None \<Rightarrow> [] | Some msg \<Rightarrow> [ConnectionErrorBlock db msg])"
  using execute_on_database_effect [OF assms(1), of stmts]
  unfolding executed_all_outer [of cursor, OF assms(2)]
  unfolding executed_all [of cursor, OF assms(2)] map_executed_all
  by simp

lemma execute_on_database_stops:
  assumes "connect e db = Connected cursor close_raises" and "j < length stmts"
      and "\<And>j'. j' < j \<Longrightarrow> database_errors_only (cursor (j' + 1) (stmts ! j'))"
      and "escapes (cursor (j + 1) (stmts ! j)) = Some msg"
  shows "statement_count (fst (execute_on_database e db stmts)) = j + 1 \<and>
     last (errors (fst (execute_on_database e db stmts))) =
       ''Connection: '' @ (case close_raises of None \<Rightarrow> msg | Some msg' \<Rightarrow> msg')"
proof -
  have p: "\<And>j'. j' < j \<Longrightarrow> escapes (cursor (1 + j') (stmts ! j')) = None"
    using assms(3) by (simp add: escapes_database_errors_only)
  from assms(4) have q: "escapes (cursor (1 + j) (stmts ! j)) = Some msg" by simp
  from executed_stops [of j stmts cursor 1 msg, OF assms(2) p q]
  have x: "length (executed cursor 1 stmts) = Suc j" "executed cursor 1 stmts \<noteq> []"
      "escapes (snd (last (executed cursor 1 stmts))) = Some msg"
    by simp_all
  then have o: "outer_error (executed cursor 1 stmts) close_raises =
      Some (case close_raises of None \<Rightarrow> msg | Some msg' \<Rightarrow> msg')"
    by (simp add: outer_error_def)
  from execute_on_database_effect [OF assms(1), of stmts] x(1) show ?thesis
    unfolding o by simp
qed

section \<open>The transitions of the scan\<close>












section \<open>One record for every database\<close>

lemma execute_query_accepted:
  assumes "split_sql_statements query = Inr stmts" and "stmts \<noteq> []" and "databases \<noteq> []"
  shows "execute_query e databases query =
     (concat (map (\<lambda>db. snd (execute_on_database e db stmts)) databases) @
        map Put (send_results (map (\<lambda>db. fst (execute_on_database e db stmts)) databases)
                   (total_elapsed e)
                   (sum_list (map (\<lambda>db. total_rows (fst (execute_on_database e db stmts)))
                                databases))
                   (now_text e)),
      Inr \<lparr> run_exec_time = total_elapsed e,
            run_total_rows =
              sum_list (map (\<lambda>db. total_rows (fst (execute_on_database e db stmts))) databases),
            databases_info = map (\<lambda>db. fst (execute_on_database e db stmts)) databases \<rparr>)"
proof -
  from assms(1,2) strip_blank_splits_to_nothing [of query] have ns: "strip query \<noteq> []"
    by auto
  then have nq: "query \<noteq> []" using empty_is_blank by auto
  from ns nq assms show ?thesis
    by (simp add: execute_query_def run_databases_eq)
qed

lemma execute_on_database_name: "name (fst (execute_on_database e db stmts)) = db"
  by (simp add: execute_on_database_def Let_def split: prod.splits)

lemma execute_on_database_connected:
  assumes "connect e db = Connected cursor close_raises"
      and "\<And>k s. database_errors_only (cursor k s)"
  shows "statement_count (fst (execute_on_database e db stmts)) = length stmts"
proof -
  obtain st r where rs: "run_statements db cursor 1 stmts db_state_init = (st, r)"
    by (cases "run_statements db cursor 1 stmts db_state_init")
  from run_statements_all [of cursor db 1 stmts db_state_init, OF assms(2)] rs
  have "r = None" and "db_statement_count st = length stmts"
    by (simp_all add: db_state_init_def)
  with assms(1) rs show ?thesis
    by (simp add: execute_on_database_def try_database_def Let_def split: option.splits)
qed

lemma execute_on_database_clean:
  assumes "connect e db = Connected cursor None"
      and "\<And>k s. completes (cursor k s)"
  shows "errors (fst (execute_on_database e db stmts)) = []"
proof -
  obtain st r where rs: "run_statements db cursor 1 stmts db_state_init = (st, r)"
    by (cases "run_statements db cursor 1 stmts db_state_init")
  have "\<And>k s. database_errors_only (cursor k s)"
    by (rule completes_database_errors_only [OF assms(2)])
  from run_statements_all [of cursor db 1 stmts db_state_init, OF this] rs
  have r: "r = None" by simp
  from run_statements_no_errors [of cursor db 1 stmts db_state_init, OF assms(2)] rs
  have "db_errors st = []" by (simp add: db_state_init_def)
  with assms(1) rs r show ?thesis
    by (simp add: execute_on_database_def try_database_def Let_def)
qed

text \<open>
  C1, as the specification words it: a statement-level execution error is recorded (the
  message in the error list, a failure block in the results) and the run goes on with the
  next statement of the same database. The inner handler catches \<^verbatim>\<open>pyodbc.DatabaseError\<close>
  only. On a database whose first of two statements raises another exception, the record
  has no statement error and no failure block of the statement, and the second statement is
  not executed: one statement is counted, and the exception is recorded as a connection
  error.
\<close>

theorem other_exception_ends_target_counterexample:
  "fst (execute_on_database env_a_escapes ''A'' [''SELECT 1'', ''SELECT 2'']) =
     \<lparr> name = ''A'', exec_time = 1234, total_rows = 0, status = ''Error'',
       statement_count = 1, errors = [''Connection: boom''],
       results = [ConnectionErrorBlock ''A'' ''boom''] \<rparr>"
  by code_simp

text \<open>
  C1, amended. (1) A run that passes validation returns, for the list of databases, the list
  of their records: one record for every database, in order, each being the record that
  \<^verbatim>\<open>_execute_on_database\<close> returns for that database and the statements, whatever happened
  on the databases before it. (2) The record of a database that cannot be reached has the
  status \<open>Error\<close>, no statement counted, the connection error as its only error and only
  block. (3) On a database that is reached, the statements are executed in order up to and
  including the first one that raises an exception other than \<^verbatim>\<open>DatabaseError\<close>; the record
  counts them, holds their blocks and their error messages in order, and then the connection
  error if an exception reached the outer handler; its status is \<open>Success\<close> if it has no
  error and \<open>Error\<close> otherwise. (4) When the statements raise nothing but \<^verbatim>\<open>DatabaseError\<close>,
  every statement is executed; a statement that raises a \<^verbatim>\<open>DatabaseError\<close> has its message in
  the error list and its failure block in the results, and the status is \<open>Error\<close>.
  (5) When a statement raises another exception, the statements after it are not executed:
  the count stops at it, and the last error of the record is the connection error.
  (6) On a database whose connection opens and closes and whose statements all return,
  every statement is executed, the record has no error and the status \<open>Success\<close>.
\<close>

theorem one_record_per_target:
  "(split_sql_statements query = Inr stmts \<and> stmts \<noteq> [] \<and> databases \<noteq> [] \<longrightarrow>
      snd (execute_query e databases query) =
        Inr \<lparr> run_exec_time = total_elapsed e,
              run_total_rows =
                sum_list (map (\<lambda>db. total_rows (fst (execute_on_database e db stmts)))
                            databases),
              databases_info = map (\<lambda>db. fst (execute_on_database e db stmts)) databases \<rparr>
      \<and> map (\<lambda>db. name (fst (execute_on_database e db stmts))) databases = databases)
   \<and> (connect e db = ConnectFails msg \<longrightarrow>
        fst (execute_on_database e db stmts) =
          \<lparr> name = db, exec_time = elapsed e db, total_rows = 0, status = ''Error'',
            statement_count = 0, errors = [''Connection: '' @ msg],
            results = [ConnectionErrorBlock db msg] \<rparr>)
   \<and> (connect e db = Connected cursor close_raises \<longrightarrow>
        statement_count (fst (execute_on_database e db stmts)) =
          length (executed cursor 1 stmts) \<and>
        errors (fst (execute_on_database e db stmts)) =
          concat (map (\<lambda>(k, r). errors_of k r) (executed cursor 1 stmts)) @
          (case outer_error (executed cursor 1 stmts) close_raises of
             None \<Rightarrow> [] | Some msg \<Rightarrow> [''Connection: '' @ msg]) \<and>
        results (fst (execute_on_database e db stmts)) =
          concat (map (\<lambda>(k, r). blocks_of db k r) (executed cursor 1 stmts)) @
          (case outer_error (executed cursor 1 stmts) close_raises of
             None \<Rightarrow> [] | Some msg \<Rightarrow> [ConnectionErrorBlock db msg]) \<and>
        status (fst (execute_on_database e db stmts)) =
          (if errors (fst (execute_on_database e db stmts)) = [] then ''Success''
           else ''Error''))
   \<and> (connect e db = Connected cursor close_raises \<and>
        (\<forall>k s. database_errors_only (cursor k s)) \<longrightarrow>
        statement_count (fst (execute_on_database e db stmts)) = length stmts \<and>
        errors (fst (execute_on_database e db stmts)) =
          concat (map (\<lambda>(k, s). errors_of k (cursor k s)) (enumerate 1 stmts)) @
          (case close_raises of None \<Rightarrow> [] | Some msg \<Rightarrow> [''Connection: '' @ msg]) \<and>
        results (fst (execute_on_database e db stmts)) =
          concat (map (\<lambda>(k, s). blocks_of db k (cursor k s)) (enumerate 1 stmts)) @
          (case close_raises of None \<Rightarrow> [] | Some msg \<Rightarrow> [ConnectionErrorBlock db msg]) \<and>
        (\<forall>j < length stmts. \<forall>msg. cursor (j + 1) (stmts ! j) = Raises (DatabaseError msg) \<longrightarrow>
           ''Statement '' @ str_nat (j + 1) @ '': '' @ msg
             \<in> set (errors (fst (execute_on_database e db stmts))) \<and>
           StatementErrorBlock db (j + 1) msg
             \<in> set (results (fst (execute_on_database e db stmts))) \<and>
           status (fst (execute_on_database e db stmts)) = ''Error''))
   \<and> (connect e db = Connected cursor close_raises \<and> j < length stmts \<and>
        (\<forall>j' < j. database_errors_only (cursor (j' + 1) (stmts ! j'))) \<and>
        escapes (cursor (j + 1) (stmts ! j)) = Some msg \<longrightarrow>
        statement_count (fst (execute_on_database e db stmts)) = j + 1 \<and>
        last (errors (fst (execute_on_database e db stmts))) =
          ''Connection: '' @ (case close_raises of None \<Rightarrow> msg | Some msg' \<Rightarrow> msg') \<and>
        status (fst (execute_on_database e db stmts)) = ''Error'')
   \<and> (connect e db = Connected cursor None \<and> (\<forall>k s. completes (cursor k s)) \<longrightarrow>
        statement_count (fst (execute_on_database e db stmts)) = length stmts \<and>
        errors (fst (execute_on_database e db stmts)) = [] \<and>
        status (fst (execute_on_database e db stmts)) = ''Success'')"
proof -
  have p1: "split_sql_statements query = Inr stmts \<and> stmts \<noteq> [] \<and> databases \<noteq> [] \<longrightarrow>
      snd (execute_query e databases query) =
        Inr \<lparr> run_exec_time = total_elapsed e,
              run_total_rows =
                sum_list (map (\<lambda>db. total_rows (fst (execute_on_database e db stmts)))
                            databases),
              databases_info = map (\<lambda>db. fst (execute_on_database e db stmts)) databases \<rparr>
      \<and> map (\<lambda>db. name (fst (execute_on_database e db stmts))) databases = databases"
    by (simp add: execute_query_accepted execute_on_database_name)
  have p2: "connect e db = ConnectFails msg \<longrightarrow>
        fst (execute_on_database e db stmts) =
          \<lparr> name = db, exec_time = elapsed e db, total_rows = 0, status = ''Error'',
            statement_count = 0, errors = [''Connection: '' @ msg],
            results = [ConnectionErrorBlock db msg] \<rparr>"
    using execute_on_database_connect_fails [of e db msg stmts] by blast
  have p3: "connect e db = Connected cursor close_raises \<longrightarrow>
        statement_count (fst (execute_on_database e db stmts)) =
          length (executed cursor 1 stmts) \<and>
        errors (fst (execute_on_database e db stmts)) =
          concat (map (\<lambda>(k, r). errors_of k r) (executed cursor 1 stmts)) @
          (case outer_error (executed cursor 1 stmts) close_raises of
             None \<Rightarrow> [] | Some msg \<Rightarrow> [''Connection: '' @ msg]) \<and>
        results (fst (execute_on_database e db stmts)) =
          concat (map (\<lambda>(k, r). blocks_of db k r) (executed cursor 1 stmts)) @
          (case outer_error (executed cursor 1 stmts) close_raises of
             None \<Rightarrow> [] | Some msg \<Rightarrow> [ConnectionErrorBlock db msg]) \<and>
        status (fst (execute_on_database e db stmts)) =
          (if errors (fst (execute_on_database e db stmts)) = [] then ''Success''
           else ''Error'')"
    using execute_on_database_effect [of e db cursor close_raises stmts]
          execute_on_database_status [of e db stmts]
    by blast
  have p4: "connect e db = Connected cursor close_raises \<and>
        (\<forall>k s. database_errors_only (cursor k s)) \<longrightarrow>
        statement_count (fst (execute_on_database e db stmts)) = length stmts \<and>
        errors (fst (execute_on_database e db stmts)) =
          concat (map (\<lambda>(k, s). errors_of k (cursor k s)) (enumerate 1 stmts)) @
          (case close_raises of None \<Rightarrow> [] | Some msg \<Rightarrow> [''Connection: '' @ msg]) \<and>
        results (fst (execute_on_database e db stmts)) =
          concat (map (\<lambda>(k, s). blocks_of db k (cursor k s)) (enumerate 1 stmts)) @
          (case close_raises of None \<Rightarrow> [] | Some msg \<Rightarrow> [ConnectionErrorBlock db msg]) \<and>
        (\<forall>j < length stmts. \<forall>msg. cursor (j + 1) (stmts ! j) = Raises (DatabaseError msg) \<longrightarrow>
           ''Statement '' @ str_nat (j + 1) @ '': '' @ msg
             \<in> set (errors (fst (execute_on_database e db stmts))) \<and>
           StatementErrorBlock db (j + 1) msg
             \<in> set (results (fst (execute_on_database e db stmts))) \<and>
           status (fst (execute_on_database e db stmts)) = ''Error'')"
  proof (intro impI)
    assume h: "connect e db = Connected cursor close_raises \<and>
        (\<forall>k s. database_errors_only (cursor k s))"
    then have c: "connect e db = Connected cursor close_raises"
      and d: "\<And>k s. database_errors_only (cursor k s)" by simp_all
    note a = execute_on_database_all [of e db cursor close_raises stmts, OF c d]
    have m: "\<forall>j < length stmts. \<forall>msg. cursor (j + 1) (stmts ! j) = Raises (DatabaseError msg) \<longrightarrow>
           ''Statement '' @ str_nat (j + 1) @ '': '' @ msg
             \<in> set (errors (fst (execute_on_database e db stmts))) \<and>
           StatementErrorBlock db (j + 1) msg
             \<in> set (results (fst (execute_on_database e db stmts))) \<and>
           status (fst (execute_on_database e db stmts)) = ''Error''"
    proof (intro allI impI)
      fix j msg
      assume j: "j < length stmts" and r: "cursor (j + 1) (stmts ! j) = Raises (DatabaseError msg)"
      from j have i: "(j + 1, stmts ! j) \<in> set (enumerate 1 stmts)"
        by (simp add: in_set_enumerate_eq)
      from i r have x: "''Statement '' @ str_nat (j + 1) @ '': '' @ msg
             \<in> set (errors (fst (execute_on_database e db stmts)))"
        unfolding a [THEN conjunct2, THEN conjunct1] by force
      from i r have y: "StatementErrorBlock db (j + 1) msg
             \<in> set (results (fst (execute_on_database e db stmts)))"
        unfolding a [THEN conjunct2, THEN conjunct2] by force
      from x have "errors (fst (execute_on_database e db stmts)) \<noteq> []" by auto
      with execute_on_database_status [of e db stmts]
      have "status (fst (execute_on_database e db stmts)) = ''Error''" by simp
      with x y show "''Statement '' @ str_nat (j + 1) @ '': '' @ msg
             \<in> set (errors (fst (execute_on_database e db stmts))) \<and>
           StatementErrorBlock db (j + 1) msg
             \<in> set (results (fst (execute_on_database e db stmts))) \<and>
           status (fst (execute_on_database e db stmts)) = ''Error''" by (intro conjI)
    qed
    from a m show "statement_count (fst (execute_on_database e db stmts)) = length stmts \<and>
        errors (fst (execute_on_database e db stmts)) =
          concat (map (\<lambda>(k, s). errors_of k (cursor k s)) (enumerate 1 stmts)) @
          (case close_raises of None \<Rightarrow> [] | Some msg \<Rightarrow> [''Connection: '' @ msg]) \<and>
        results (fst (execute_on_database e db stmts)) =
          concat (map (\<lambda>(k, s). blocks_of db k (cursor k s)) (enumerate 1 stmts)) @
          (case close_raises of None \<Rightarrow> [] | Some msg \<Rightarrow> [ConnectionErrorBlock db msg]) \<and>
        (\<forall>j < length stmts. \<forall>msg. cursor (j + 1) (stmts ! j) = Raises (DatabaseError msg) \<longrightarrow>
           ''Statement '' @ str_nat (j + 1) @ '': '' @ msg
             \<in> set (errors (fst (execute_on_database e db stmts))) \<and>
           StatementErrorBlock db (j + 1) msg
             \<in> set (results (fst (execute_on_database e db stmts))) \<and>
           status (fst (execute_on_database e db stmts)) = ''Error'')"
      by blast
  qed
  have p5: "connect e db = Connected cursor close_raises \<and> j < length stmts \<and>
        (\<forall>j' < j. database_errors_only (cursor (j' + 1) (stmts ! j'))) \<and>
        escapes (cursor (j + 1) (stmts ! j)) = Some msg \<longrightarrow>
        statement_count (fst (execute_on_database e db stmts)) = j + 1 \<and>
        last (errors (fst (execute_on_database e db stmts))) =
          ''Connection: '' @ (case close_raises of None \<Rightarrow> msg | Some msg' \<Rightarrow> msg') \<and>
        status (fst (execute_on_database e db stmts)) = ''Error''"
  proof (intro impI)
    assume h: "connect e db = Connected cursor close_raises \<and> j < length stmts \<and>
        (\<forall>j' < j. database_errors_only (cursor (j' + 1) (stmts ! j'))) \<and>
        escapes (cursor (j + 1) (stmts ! j)) = Some msg"
    then have c: "connect e db = Connected cursor close_raises" and l: "j < length stmts"
      and d: "\<And>j'. j' < j \<Longrightarrow> database_errors_only (cursor (j' + 1) (stmts ! j'))"
      and x: "escapes (cursor (j + 1) (stmts ! j)) = Some msg" by simp_all
    note s = execute_on_database_stops [of e db cursor close_raises j stmts msg, OF c l d x]
    from execute_on_database_effect [OF c, of stmts] x l
         executed_stops [of j stmts cursor 1 msg]
    have "errors (fst (execute_on_database e db stmts)) \<noteq> []"
      using d by (simp add: outer_error_def escapes_database_errors_only)
    with execute_on_database_status [of e db stmts]
    have "status (fst (execute_on_database e db stmts)) = ''Error''" by simp
    with s show "statement_count (fst (execute_on_database e db stmts)) = j + 1 \<and>
        last (errors (fst (execute_on_database e db stmts))) =
          ''Connection: '' @ (case close_raises of None \<Rightarrow> msg | Some msg' \<Rightarrow> msg') \<and>
        status (fst (execute_on_database e db stmts)) = ''Error''" by blast
  qed
  have p6: "connect e db = Connected cursor None \<and> (\<forall>k s. completes (cursor k s)) \<longrightarrow>
        statement_count (fst (execute_on_database e db stmts)) = length stmts \<and>
        errors (fst (execute_on_database e db stmts)) = [] \<and>
        status (fst (execute_on_database e db stmts)) = ''Success''"
  proof (intro impI)
    assume h: "connect e db = Connected cursor None \<and> (\<forall>k s. completes (cursor k s))"
    then have c: "connect e db = Connected cursor None"
      and d: "\<And>k s. completes (cursor k s)" by simp_all
    have d': "\<And>k s. database_errors_only (cursor k s)"
      by (rule completes_database_errors_only [OF d])
    from execute_on_database_clean [OF c d, of stmts]
    have n: "errors (fst (execute_on_database e db stmts)) = []" .
    with execute_on_database_status [of e db stmts]
    have "status (fst (execute_on_database e db stmts)) = ''Success''" by simp
    with n execute_on_database_connected [OF c d', of stmts]
    show "statement_count (fst (execute_on_database e db stmts)) = length stmts \<and>
        errors (fst (execute_on_database e db stmts)) = [] \<and>
        status (fst (execute_on_database e db stmts)) = ''Success''" by (intro conjI)
  qed
  from p1 p2 p3 p4 p5 p6 show ?thesis by (intro conjI)
qed

text \<open>The witness: on \<open>A\<close> the first of two statements fails, \<open>B\<close> comes after it; a
  database that cannot be reached; a first statement with another exception.\<close>

theorem one_record_per_target_witness:
  "map name (databases_info (projr (snd (execute_query env_a_fails [''A'', ''B'']
      ''SELECT 1; SELECT 2'')))) = [''A'', ''B'']
   \<and> fst (execute_on_database env_b_down ''B'' [''SELECT 1'', ''SELECT 2'']) =
       \<lparr> name = ''B'', exec_time = elapsed env_b_down ''B'', total_rows = 0, status = ''Error'',
         statement_count = 0, errors = [''Connection: down''],
         results = [ConnectionErrorBlock ''B'' ''down''] \<rparr>
   \<and> statement_count (fst (execute_on_database env_a_fails ''A'' [''SELECT 1'', ''SELECT 2'']))
       = 2
   \<and> ''Statement '' @ str_nat 1 @ '': bad''
       \<in> set (errors (fst (execute_on_database env_a_fails ''A'' [''SELECT 1'', ''SELECT 2''])))
   \<and> StatementErrorBlock ''A'' 1 ''bad''
       \<in> set (results (fst (execute_on_database env_a_fails ''A'' [''SELECT 1'', ''SELECT 2''])))
   \<and> status (fst (execute_on_database env_a_fails ''A'' [''SELECT 1'', ''SELECT 2'']))
       = ''Error''
   \<and> statement_count (fst (execute_on_database env_a_escapes ''A'' [''SELECT 1'', ''SELECT 2'']))
       = 1
   \<and> status (fst (execute_on_database env_a_fails ''B'' [''SELECT 1'', ''SELECT 2'']))
       = ''Success''"
proof -
  have sp: "split_sql_statements ''SELECT 1; SELECT 2'' = Inr [''SELECT 1'', ''SELECT 2'']
      \<and> [''SELECT 1'', ''SELECT 2''] \<noteq> ([] :: string list)
      \<and> [''A'', ''B''] \<noteq> ([] :: string list)"
    by code_simp
  from one_record_per_target
      [where query = "''SELECT 1; SELECT 2''" and stmts = "[''SELECT 1'', ''SELECT 2'']"
         and databases = "[''A'', ''B'']" and e = env_a_fails, THEN conjunct1] sp
  have w1: "map name (databases_info (projr (snd (execute_query env_a_fails
      [''A'', ''B''] ''SELECT 1; SELECT 2'')))) = [''A'', ''B'']"
    by (simp add: execute_on_database_name)
  have cf: "connect env_b_down ''B'' = ConnectFails ''down''"
    by (simp add: env_b_down_def)
  from one_record_per_target
      [where e = env_b_down and db = "''B''" and msg = "''down''"
         and stmts = "[''SELECT 1'', ''SELECT 2'']", THEN conjunct2, THEN conjunct1] cf
  have w2: "fst (execute_on_database env_b_down ''B'' [''SELECT 1'', ''SELECT 2'']) =
       \<lparr> name = ''B'', exec_time = elapsed env_b_down ''B'', total_rows = 0, status = ''Error'',
         statement_count = 0, errors = [''Connection: down''],
         results = [ConnectionErrorBlock ''B'' ''down''] \<rparr>"
    by simp
  have ca: "connect env_a_fails ''A'' = Connected cursor_first_fails None \<and>
      (\<forall>k s. database_errors_only (cursor_first_fails k s))"
    by (simp add: env_a_fails_def cursor_first_fails_def one_row_def)
  have f: "(0::nat) < length [''SELECT 1'', ''SELECT 2''] \<and>
      cursor_first_fails (0 + 1) ([''SELECT 1'', ''SELECT 2''] ! 0) = Raises (DatabaseError ''bad'')"
    by (simp add: cursor_first_fails_def)
  from one_record_per_target
      [where e = env_a_fails and db = "''A''" and cursor = cursor_first_fails
         and close_raises = None and stmts = "[''SELECT 1'', ''SELECT 2'']",
       THEN conjunct2, THEN conjunct2, THEN conjunct2, THEN conjunct1] ca
  have w3: "statement_count (fst (execute_on_database env_a_fails ''A''
        [''SELECT 1'', ''SELECT 2''])) = length [''SELECT 1'', ''SELECT 2'']"
    and w3': "\<forall>j < length [''SELECT 1'', ''SELECT 2'']. \<forall>msg.
        cursor_first_fails (j + 1) ([''SELECT 1'', ''SELECT 2''] ! j) = Raises (DatabaseError msg) \<longrightarrow>
           ''Statement '' @ str_nat (j + 1) @ '': '' @ msg
             \<in> set (errors (fst (execute_on_database env_a_fails ''A''
                   [''SELECT 1'', ''SELECT 2'']))) \<and>
           StatementErrorBlock ''A'' (j + 1) msg
             \<in> set (results (fst (execute_on_database env_a_fails ''A''
                   [''SELECT 1'', ''SELECT 2'']))) \<and>
           status (fst (execute_on_database env_a_fails ''A'' [''SELECT 1'', ''SELECT 2'']))
             = ''Error''"
    by blast+
  from w3' [rule_format, of 0 "''bad''"] f
  have w4: "''Statement '' @ str_nat 1 @ '': bad''
       \<in> set (errors (fst (execute_on_database env_a_fails ''A'' [''SELECT 1'', ''SELECT 2'']))) \<and>
     StatementErrorBlock ''A'' 1 ''bad''
       \<in> set (results (fst (execute_on_database env_a_fails ''A'' [''SELECT 1'', ''SELECT 2'']))) \<and>
     status (fst (execute_on_database env_a_fails ''A'' [''SELECT 1'', ''SELECT 2'']))
       = ''Error''"
    by simp
  have ce: "connect env_a_escapes ''A'' = Connected cursor_first_escapes None \<and>
      (0::nat) < length [''SELECT 1'', ''SELECT 2''] \<and>
      (\<forall>j' < (0::nat). database_errors_only
          (cursor_first_escapes (j' + 1) ([''SELECT 1'', ''SELECT 2''] ! j'))) \<and>
      escapes (cursor_first_escapes (0 + 1) ([''SELECT 1'', ''SELECT 2''] ! 0)) = Some ''boom''"
    by (simp add: env_a_escapes_def cursor_first_escapes_def)
  from one_record_per_target
      [where e = env_a_escapes and db = "''A''" and cursor = cursor_first_escapes
         and close_raises = None and stmts = "[''SELECT 1'', ''SELECT 2'']" and j = 0
         and msg = "''boom''",
       THEN conjunct2, THEN conjunct2, THEN conjunct2, THEN conjunct2, THEN conjunct1] ce
  have w5: "statement_count (fst (execute_on_database env_a_escapes ''A''
        [''SELECT 1'', ''SELECT 2''])) = 1"
    by simp
  have cb: "connect env_a_fails ''B'' = Connected (\<lambda>k statement. one_row) None \<and>
      (\<forall>k s. completes ((\<lambda>k statement. one_row) k s))"
    by (simp add: env_a_fails_def one_row_def)
  from one_record_per_target
      [where e = env_a_fails and db = "''B''" and cursor = "\<lambda>k statement. one_row"
         and stmts = "[''SELECT 1'', ''SELECT 2'']",
       THEN conjunct2, THEN conjunct2, THEN conjunct2, THEN conjunct2, THEN conjunct2] cb
  have w6: "status (fst (execute_on_database env_a_fails ''B'' [''SELECT 1'', ''SELECT 2'']))
       = ''Success''"
    by blast
  from w1 w2 w3 w4 w5 w6 show ?thesis by simp
qed

section \<open>When a semicolon ends a statement\<close>



section \<open>Statements that are meant to stay whole\<close>

text \<open>
  C3: a text without \<^verbatim>\<open>GO\<close> line and without the drop-then-create pairing that matches one of
  the patterns of \<^verbatim>\<open>complex_patterns\<close> is returned as one unit. The source announces this
  (\<^verbatim>\<open>Check for complex statements that should NOT be split\<close>), but its loop returns only when
  the text also matches the routine or the \<^verbatim>\<open>EXEC\<close> pattern. Evaluation of the code on a text
  that matches the \<^verbatim>\<open>DECLARE\<close> pattern: two units.
\<close>

theorem declare_text_is_split:
  "\<not> re_search go_pattern (strip ''DECLARE @x INT; SELECT 1'') \<and>
   drop_create_split (strip ''DECLARE @x INT; SELECT 1'') = None \<and>
   re_search (complex_patterns ! 5) (strip_comments (strip ''DECLARE @x INT; SELECT 1'')) \<and>
   split_sql_statements ''DECLARE @x INT; SELECT 1'' = Inr [''DECLARE @x INT'', ''SELECT 1'']"
  by code_simp

section \<open>Validation before any work\<close>

text \<open>
  C5: \<^verbatim>\<open>execute_query\<close> raises exactly when the query is empty or whitespace only, or the
  list of databases is empty, or the splitter returns no unit; what it raises is a
  \<^verbatim>\<open>ValueError\<close>, and then nothing was done: no message was put and no connection was asked
  for. A run that is accepted asks for a connection to every database.
\<close>

theorem rejects_exactly_invalid_input:
  "(isl (snd (execute_query e databases query)) \<longleftrightarrow>
      (\<forall>c\<in>set query. isspace c) \<or> databases = [] \<or> split_sql_statements query = Inr [])
   \<and> (isl (snd (execute_query e databases query)) \<longrightarrow>
        fst (execute_query e databases query) = [] \<and>
        (\<exists>msg. snd (execute_query e databases query) = Inl (ValueError msg)))
   \<and> (\<not> isl (snd (execute_query e databases query)) \<longrightarrow>
        connections (fst (execute_query e databases query)) = databases)"
proof -
  obtain units where u: "split_sql_statements query = Inr units"
    using split_sql_statements_total by blast
  show ?thesis
  proof (cases "strip query = [] \<or> databases = [] \<or> units = []")
    case True
    then have "execute_query e databases query =
        ([], Inl (ValueError ''Query cannot be empty'')) \<or>
      execute_query e databases query = ([], Inl (ValueError ''No databases selected'')) \<or>
      execute_query e databases query =
        ([], Inl (ValueError ''No valid SQL statements found''))"
      using u by (auto simp: execute_query_def)
    with True u show ?thesis by (auto simp: strip_blank)
  next
    case False
    with u have "split_sql_statements query = Inr units" "units \<noteq> []" "databases \<noteq> []"
      by simp_all
    from execute_query_accepted [OF this, of e] False u show ?thesis
      by (simp add: strip_blank connections_append connections_puts connections_run)
  qed
qed

theorem rejects_exactly_invalid_input_witness:
  "execute_query env_b_down [''A''] [CHR '' ''] = ([], Inl (ValueError ''Query cannot be empty''))
   \<and> execute_query env_b_down [] ''SELECT 1'' = ([], Inl (ValueError ''No databases selected''))
   \<and> execute_query env_b_down [''A''] '';'' =
       ([], Inl (ValueError ''No valid SQL statements found''))
   \<and> connections (fst (execute_query env_b_down [''A'', ''B''] ''SELECT 1'')) = [''A'', ''B'']"
proof -
  have a: "execute_query env_b_down [''A''] [CHR '' ''] =
      ([], Inl (ValueError ''Query cannot be empty''))" by code_simp
  have b: "execute_query env_b_down [] ''SELECT 1'' =
      ([], Inl (ValueError ''No databases selected''))" by code_simp
  have c: "execute_query env_b_down [''A''] '';'' =
      ([], Inl (ValueError ''No valid SQL statements found''))" by code_simp
  have s: "split_sql_statements ''SELECT 1'' = Inr [''SELECT 1'']" by code_simp
  have w: "\<not> (\<forall>c\<in>set ''SELECT 1''. isspace c)" by (simp add: isspace_def)
  from rejects_exactly_invalid_input [of env_b_down "[''A'', ''B'']" "''SELECT 1''"] s w
  have d: "connections (fst (execute_query env_b_down [''A'', ''B''] ''SELECT 1'')) =
      [''A'', ''B'']" by simp
  from a b c d show ?thesis by (intro conjI)
qed

section \<open>The order of the published results\<close>

text \<open>
  C6, as the specification words it: the blocks are streamed in reverse order of the
  databases, and the rows of the summary table are in the order of submission. After a run
  on \<open>A\<close> then \<open>B\<close>, the first row of the table is the one of \<open>B\<close>.
\<close>

theorem summary_order_counterexample:
  "map name (fst (run_databases env_b_down [''SELECT 1''] [''A'', ''B''] ([], 0, []))) =
     [''A'', ''B''] \<and>
   map (take 3)
     (table_rows (summary_lines
        (fst (run_databases env_b_down [''SELECT 1''] [''A'', ''B''] ([], 0, [])))
        5000 1 ''2024-01-01 00:00:00'')) = [''| B'', ''| A'']"
  by code_simp

text \<open>
  C6, amended: the blocks are streamed in reverse order of the databases (the blocks of one
  database in the order of its statements), after the summary; and the rows of the summary
  table list the databases in reverse order of submission too.
\<close>

theorem results_and_summary_reversed:
  "send_results infos t n now =
     ExecutionSummary (generate_execution_summary infos t n now) # put_results (rev infos)
   \<and> streamed_blocks (send_results infos t n now) = concat (map results (rev infos))
   \<and> table_rows (summary_lines infos t n now) = map data_row (rev infos)"
  by (simp add: send_results_def streamed_blocks_put_results table_rows_def summary_lines_def
        append_data_rows_eq summary_header_def)

theorem results_and_summary_reversed_witness:
  "streamed_blocks (send_results
      (fst (run_databases env_b_down [''SELECT 1''] [''A'', ''B''] ([], 0, [])))
      5000 1 ''2024-01-01 00:00:00'') =
     [ConnectionErrorBlock ''B'' ''down'', RowsBlock ''A'' 1 None [''c''] [[''1'']]]"
proof -
  have r: "concat (map results
      (rev (fst (run_databases env_b_down [''SELECT 1''] [''A'', ''B''] ([], 0, []))))) =
     [ConnectionErrorBlock ''B'' ''down'', RowsBlock ''A'' 1 None [''c''] [[''1'']]]"
    by code_simp
  from results_and_summary_reversed
         [of "fst (run_databases env_b_down [''SELECT 1''] [''A'', ''B''] ([], 0, []))"
             5000 1 "''2024-01-01 00:00:00''"]
  have "streamed_blocks (send_results
      (fst (run_databases env_b_down [''SELECT 1''] [''A'', ''B''] ([], 0, [])))
      5000 1 ''2024-01-01 00:00:00'') =
     concat (map results
      (rev (fst (run_databases env_b_down [''SELECT 1''] [''A'', ''B''] ([], 0, [])))))"
    by (rule conjunct2 [THEN conjunct1])
  with r show ?thesis by (simp only:)
qed

section \<open>The status of a record\<close>

text \<open>
  C7, as the specification words it: the status is \<open>Success\<close> if the error list of the
  record is empty and \<open>Failed\<close> otherwise. On a database that cannot be reached the error list
  is not empty and the status is not \<open>Failed\<close>.
\<close>

theorem status_failed_counterexample:
  "errors (fst (execute_on_database env_b_down ''B'' [''SELECT 1''])) \<noteq> [] \<and>
   status (fst (execute_on_database env_b_down ''B'' [''SELECT 1''])) \<noteq> ''Failed''"
  by code_simp

text \<open>
  C7, amended: for every record that \<^verbatim>\<open>_execute_on_database\<close> returns, the status is
  \<open>Success\<close> if the error list of the record is empty and \<open>Error\<close> otherwise.
\<close>

theorem status_success_or_error:
  "status (fst (execute_on_database e db stmts)) =
     (if errors (fst (execute_on_database e db stmts)) = [] then ''Success'' else ''Error'')"
  by (simp add: execute_on_database_def Let_def split: prod.splits option.splits)

theorem status_success_or_error_witness:
  "status (fst (execute_on_database env_b_down ''B'' [''SELECT 1''])) = ''Error'' \<and>
   status (fst (execute_on_database env_b_down ''A'' [''SELECT 1''])) = ''Success''"
proof -
  have b: "errors (fst (execute_on_database env_b_down ''B'' [''SELECT 1''])) \<noteq> []"
    by code_simp
  have a: "errors (fst (execute_on_database env_b_down ''A'' [''SELECT 1''])) = []"
    by code_simp
  show ?thesis
    using status_success_or_error [of env_b_down "''B''" "[''SELECT 1'']"]
          status_success_or_error [of env_b_down "''A''" "[''SELECT 1'']"] a b
    by (simp only: if_True if_False simp_thms)
qed


section \<open>The outcomes of one statement\<close>

text \<open>
  C8, as the specification words it: one outcome is recorded for every result set that the
  driver returns for a statement, also for a result set with columns and no rows. A statement
  with two result sets, the first with a column and no rows, the second with one row,
  leaves a single block, without a result set number.
\<close>

theorem zero_row_result_set_counterexample:
  "db_results (fst (execute_statement ''A'' 1 empty_then_row db_state_init)) =
     [RowsBlock ''A'' 1 None [''d''] [[''1'']]]"
  by code_simp

text \<open>
  C8, amended. A statement whose execution returns records one outcome for every result
  set of the driver that has no columns (an affected-count outcome) or has columns and at
  least one row (a rows outcome), in the order of the result sets; a result set with columns
  and no rows records nothing; when no result set was recorded at all, the statement records
  the single outcome \<open>Command completed successfully\<close>. When the commit that follows raises a
  database error, one failure outcome is recorded after these outcomes; when it raises
  another exception, nothing more is recorded for the statement. A statement whose execution
  raises a database error records one failure outcome and nothing else; one whose execution
  raises another exception records nothing.
\<close>

theorem outcomes_of_a_statement:
  "db_results (fst (execute_statement db k (Completes first others commit_raises) st)) =
     db_results st @
       (if filter recorded (first # others) = [] then [CompletedBlock db k]
        else map (\<lambda>(j, rs). outcome db k (length (filter recorded (first # others))) j rs)
               (enumerate 0 (filter recorded (first # others)))) @
       (case commit_raises of
          None \<Rightarrow> []
        | Some (DatabaseError msg) \<Rightarrow> [StatementErrorBlock db k msg]
        | Some (OtherException msg) \<Rightarrow> [])
   \<and> db_results (fst (execute_statement db k (Raises (DatabaseError msg)) st)) =
     db_results st @ [StatementErrorBlock db k msg]
   \<and> db_results (fst (execute_statement db k (Raises (OtherException msg)) st)) =
     db_results st"
proof (intro conjI)
  show "db_results (fst (execute_statement db k (Completes first others commit_raises) st)) =
     db_results st @
       (if filter recorded (first # others) = [] then [CompletedBlock db k]
        else map (\<lambda>(j, rs). outcome db k (length (filter recorded (first # others))) j rs)
               (enumerate 0 (filter recorded (first # others)))) @
       (case commit_raises of
          None \<Rightarrow> []
        | Some (DatabaseError msg) \<Rightarrow> [StatementErrorBlock db k msg]
        | Some (OtherException msg) \<Rightarrow> [])"
  proof (cases commit_raises)
    case None
    with execute_statement_effect [of db k "Completes first others commit_raises" st]
    show ?thesis by (simp add: result_blocks_def del: filter.simps)
  next
    case (Some x)
    with execute_statement_effect [of db k "Completes first others commit_raises" st]
    show ?thesis by (cases x) (simp_all add: result_blocks_def del: filter.simps)
  qed
next
  from execute_statement_effect [of db k "Raises (DatabaseError msg)" st]
  show "db_results (fst (execute_statement db k (Raises (DatabaseError msg)) st)) =
     db_results st @ [StatementErrorBlock db k msg]" by simp
next
  from execute_statement_effect [of db k "Raises (OtherException msg)" st]
  show "db_results (fst (execute_statement db k (Raises (OtherException msg)) st)) =
     db_results st" by simp
qed

theorem outcomes_of_a_statement_witness:
  "length (db_results (fst (execute_statement ''A'' 1 empty_then_row db_state_init))) = 1 \<and>
   db_results (fst (execute_statement ''A'' 1 row_then_commit_fails db_state_init)) =
     [RowsBlock ''A'' 1 None [''c''] [[''1'']], StatementErrorBlock ''A'' 1 ''deadlock''] \<and>
   db_results (fst (execute_statement ''A'' 1 (Raises (DatabaseError ''bad'')) db_state_init)) =
     [StatementErrorBlock ''A'' 1 ''bad'']"
proof -
  from outcomes_of_a_statement
          [of "''A''" 1 "\<lparr> description = Some [''c''], pending_rows = [], rowcount = - 1 \<rparr>"
              "[\<lparr> description = Some [''d''], pending_rows = [[''1'']], rowcount = - 1 \<rparr>]"
              None db_state_init "''bad''"]
  have a: "length (db_results (fst (execute_statement ''A'' 1 empty_then_row db_state_init))) = 1"
    and c: "db_results (fst (execute_statement ''A'' 1 (Raises (DatabaseError ''bad''))
              db_state_init)) = [StatementErrorBlock ''A'' 1 ''bad'']"
    by (simp_all add: empty_then_row_def recorded_def has_columns_def db_state_init_def)
  from outcomes_of_a_statement
          [of "''A''" 1 "\<lparr> description = Some [''c''], pending_rows = [[''1'']], rowcount = - 1 \<rparr>"
              "[]" "Some (DatabaseError ''deadlock'')" db_state_init "''bad''"]
  have b: "db_results (fst (execute_statement ''A'' 1 row_then_commit_fails db_state_init)) =
     [RowsBlock ''A'' 1 None [''c''] [[''1'']], StatementErrorBlock ''A'' 1 ''deadlock'']"
    by (simp add: row_then_commit_fails_def recorded_def has_columns_def db_state_init_def
          outcome_def)
  from a b c show ?thesis by (intro conjI)
qed

section \<open>The splitter always returns\<close>

text \<open>
  C9: for every input string \<^verbatim>\<open>_split_sql_statements\<close> returns a list of units (every loop
  of it terminates, and no index is out of range), and for an input that is empty or consists
  of whitespace only it returns the empty list.
\<close>

theorem splitter_total:
  "(\<exists>units. split_sql_statements query = Inr units) \<and>
   ((\<forall>c\<in>set query. isspace c) \<longrightarrow> split_sql_statements query = Inr [])"
  using split_sql_statements_total [of query] strip_blank [of query]
        strip_blank_splits_to_nothing [of query]
  by blast

theorem splitter_total_witness:
  "split_sql_statements [CHR '' '', NL, CHR '' ''] = Inr [] \<and>
   (\<exists>units. split_sql_statements ''x); a'' = Inr units)"
proof -
  have w: "\<forall>c\<in>set [CHR '' '', NL, CHR '' '']. isspace c"
    by (simp add: isspace_def NL_def)
  from splitter_total [of "[CHR '' '', NL, CHR '' '']"] w
  have a: "split_sql_statements [CHR '' '', NL, CHR '' ''] = Inr []" by blast
  from splitter_total [of "''x); a''"]
  have b: "\<exists>units. split_sql_statements ''x); a'' = Inr units" by blast
  from a b show ?thesis by (intro conjI)
qed

section \<open>The two depth counters\<close>

text \<open>
  C10. (1) In every state of the scan the block depth is at least 0, and (2) an \<^verbatim>\<open>END\<close> on
  word boundaries outside strings and brackets sets it to \<open>max 0 (depth - 1)\<close>, so at depth 0
  it stays 0. (3) A closing parenthesis outside strings and brackets takes 1 off the
  parenthesis depth whatever its value, so at depth 0 or below it becomes negative. (4) A
  semicolon met while the parenthesis depth is not 0 is appended to the current statement
  and ends nothing. (5) The text \<^verbatim>\<open>x); a; b\<close> is returned as a single unit.
\<close>

theorem depth_counters:
  "(reachable query st \<longrightarrow> 0 \<le> begin_end_depth st)
   \<and> (reachable query st \<and> i st < length query \<and> \<not> in_string st \<and> \<not> in_bracket st \<and>
        upper (slice_from query (i st) 3) = ''END'' \<and>
        word_boundary query (i st) 3 = Inr True \<longrightarrow>
        scan_step query st =
          Inr (advance (st\<lparr> begin_end_depth := max 0 (begin_end_depth st - 1) \<rparr>)
                 (query ! i st))
        \<and> (begin_end_depth st = 0 \<longrightarrow> begin_end_depth (projr (scan_step query st)) = 0))
   \<and> (reachable query st \<and> i st < length query \<and> query ! i st = CHR '')'' \<and>
        \<not> in_string st \<and> \<not> in_bracket st \<longrightarrow>
        scan_step query st =
          Inr (advance (st\<lparr> paren_depth := paren_depth st - 1 \<rparr>) (CHR '')''))
        \<and> (paren_depth st \<le> 0 \<longrightarrow> paren_depth (projr (scan_step query st)) < 0))
   \<and> (reachable query st \<and> i st < length query \<and> query ! i st = CHR '';'' \<and>
        paren_depth st \<noteq> 0 \<longrightarrow>
        scan_step query st = Inr (advance st (CHR '';'')))
   \<and> split_sql_statements ''x); a; b'' = Inr [''x); a; b'']"
proof (intro conjI impI)
  assume "reachable query st"
  then show "0 \<le> begin_end_depth st" by (rule reachable_block_depth)
next
  assume h: "reachable query st \<and> i st < length query \<and> \<not> in_string st \<and> \<not> in_bracket st \<and>
        upper (slice_from query (i st) 3) = ''END'' \<and> word_boundary query (i st) 3 = Inr True"
  then show s: "scan_step query st =
          Inr (advance (st\<lparr> begin_end_depth := max 0 (begin_end_depth st - 1) \<rparr>)
                 (query ! i st))"
    using scan_step_end [of st query] by blast
  assume "begin_end_depth st = 0"
  with s show "begin_end_depth (projr (scan_step query st)) = 0"
    by (simp add: advance_def)
next
  assume h: "reachable query st \<and> i st < length query \<and> query ! i st = CHR '')'' \<and>
        \<not> in_string st \<and> \<not> in_bracket st"
  then show s: "scan_step query st =
          Inr (advance (st\<lparr> paren_depth := paren_depth st - 1 \<rparr>) (CHR '')''))"
    using scan_step_close_paren [of st query] by blast
  assume "paren_depth st \<le> 0"
  with s show "paren_depth (projr (scan_step query st)) < 0"
    by (simp add: advance_def)
next
  assume h: "reachable query st \<and> i st < length query \<and> query ! i st = CHR '';'' \<and>
        paren_depth st \<noteq> 0"
  then have "string_char st \<noteq> Some (CHR '';'')"
    using reachable_string_char [of query st] by (auto simp: SQUOTE_def DQUOTE_def)
  with h show "scan_step query st = Inr (advance st (CHR '';''))"
    using scan_step_semicolon [of st query] by simp
next
  show "split_sql_statements ''x); a; b'' = Inr [''x); a; b'']" by code_simp
qed

text \<open>The witness: \<^verbatim>\<open>END\<close> at the start of a text, and the text \<^verbatim>\<open>);\<close>.\<close>

theorem depth_counters_witness:
  "begin_end_depth (projr (scan_step ''END; x'' scan_init)) = 0
   \<and> paren_depth (projr (scan_step '');'' scan_init)) < 0
   \<and> scan_step '');'' (advance (scan_init\<lparr> paren_depth := - 1 \<rparr>) (CHR '')'')) =
       Inr (advance (advance (scan_init\<lparr> paren_depth := - 1 \<rparr>) (CHR '')'')) (CHR '';''))"
proof -
  have e: "reachable ''END; x'' scan_init \<and> i scan_init < length ''END; x'' \<and>
      \<not> in_string scan_init \<and> \<not> in_bracket scan_init \<and>
      upper (slice_from ''END; x'' (i scan_init) 3) = ''END'' \<and>
      word_boundary ''END; x'' (i scan_init) 3 = Inr True"
    by (intro conjI reachable.init) code_simp+
  have e0: "begin_end_depth scan_init = 0" by (simp add: scan_init_def)
  from depth_counters [of "''END; x''" scan_init] e e0
  have a: "begin_end_depth (projr (scan_step ''END; x'' scan_init)) = 0" by blast
  have p: "reachable '');'' scan_init \<and> i scan_init < length '');'' \<and>
      '');'' ! i scan_init = CHR '')'' \<and> \<not> in_string scan_init \<and> \<not> in_bracket scan_init"
    by (intro conjI reachable.init) code_simp+
  have p0: "paren_depth scan_init \<le> 0" by (simp add: scan_init_def)
  from depth_counters [of "'');''" scan_init] p p0
  have b: "paren_depth (projr (scan_step '');'' scan_init)) < 0" by blast
  have s1: "scan_step '');'' scan_init =
      Inr (advance (scan_init\<lparr> paren_depth := - 1 \<rparr>) (CHR '')''))"
    by code_simp
  have r1: "reachable '');'' (advance (scan_init\<lparr> paren_depth := - 1 \<rparr>) (CHR '')''))"
    by (rule reachable.step [OF reachable.init _ s1]) code_simp
  have q: "i (advance (scan_init\<lparr> paren_depth := - 1 \<rparr>) (CHR '')'')) < length '');'' \<and>
      '');'' ! i (advance (scan_init\<lparr> paren_depth := - 1 \<rparr>) (CHR '')'')) = CHR '';'' \<and>
      paren_depth (advance (scan_init\<lparr> paren_depth := - 1 \<rparr>) (CHR '')'')) \<noteq> 0"
    by (intro conjI) code_simp+
  from depth_counters [of "'');''" "advance (scan_init\<lparr> paren_depth := - 1 \<rparr>) (CHR '')'')"]
       r1 q
  have c: "scan_step '');'' (advance (scan_init\<lparr> paren_depth := - 1 \<rparr>) (CHR '')'')) =
       Inr (advance (advance (scan_init\<lparr> paren_depth := - 1 \<rparr>) (CHR '')'')) (CHR '';''))"
    by blast
  from a b c show ?thesis by (intro conjI)
qed

end
